theory Spec2Isabelle
  imports Main "HOL-Library.Char_ord" "HOL-Library.List_Lexorder" "HOL-Library.AList"
    "HOL-Library.Sublist"
begin

section \<open>Wheel assembly for the LilyPond binaries: the model\<close>

text \<open>
  The theory embeds the function \<open>build\<close> of \<open>build_wheels.py\<close> from the point where
  the release archive has been unpacked and its top directory renamed to
  \<open>lilypond-binaries\<close> (line 55 of the script). Download, unpacking and the rename are
  input/output glue; their result, the directory \<open>unpack_dest\<close>, is the argument \<open>fs\<close>.

  Text and bytes are both lists of 8-bit characters: text is kept in its encoded form.
  Paths are relative to \<open>unpack_dest\<close> and are lists of components, as pathlib keeps them
  on a POSIX system; a component \<open>..\<close> is kept as it stands and never resolved, and the
  tree holds directories and regular files only. Times are seconds on an integer clock;
  the timestamp of an archive member is the modification time of its file (the zip
  format's limits on years are not modelled). Of the ways input and output can fail, the
  model has those of path resolution: a missing parent, a file where a directory is
  needed, a directory where a file is needed, an entry that exists already.
\<close>

subsection \<open>Python's \<open>str\<close> of an integer\<close>

definition digit_char :: "nat \<Rightarrow> char" where
  "digit_char d = char_of (48 + d)"

fun str_nat :: "nat \<Rightarrow> string" where
  "str_nat n = (if n < 10 then [digit_char n] else str_nat (n div 10) @ [digit_char (n mod 10)])"

declare str_nat.simps [simp del]

definition str_int :: "int \<Rightarrow> string" where
  "str_int i = (if i < 0 then CHR ''-'' # str_nat (nat (- i)) else str_nat (nat i))"

subsection \<open>Paths\<close>

type_synonym path = "string list"
type_synonym bytes = string

text \<open>\<open>s.split("/")\<close>: the pieces of a string between slashes.\<close>

fun split_slash :: "string \<Rightarrow> string list" where
  "split_slash [] = [[]]"
| "split_slash (c # cs) =
     (if c = CHR ''/'' then [] # split_slash cs
      else (case split_slash cs of [] \<Rightarrow> [[c]] | w # ws \<Rightarrow> (c # w) # ws))"

text \<open>
  \<open>Path(s)\<close> for a relative POSIX path: pathlib splits at slashes and drops empty
  components and \<open>.\<close>; it keeps \<open>..\<close>.
\<close>

definition Path :: "string \<Rightarrow> path" where
  "Path s = filter (\<lambda>w. w \<noteq> [] \<and> w \<noteq> ''.'') (split_slash s)"

text \<open>\<open>str(p)\<close> of a relative path: the components joined by slashes.\<close>

fun str_path :: "path \<Rightarrow> string" where
  "str_path [] = ''.''"
| "str_path [w] = w"
| "str_path (w # v # ws) = w @ CHR ''/'' # str_path (v # ws)"

definition is_relative_to :: "path \<Rightarrow> path \<Rightarrow> bool" where
  "is_relative_to p other = prefix other p"

subsection \<open>The directory tree under \<open>unpack_dest\<close>\<close>

record stat =
  st_mode :: int
  st_mtime :: int

datatype node = Dir | File bytes stat

type_synonym tree = "(path \<times> node) list"

datatype error =
  AssertionError | FileExistsError | FileNotFoundError | NotADirectoryError | IsADirectoryError

text \<open>The root \<open>[]\<close> is \<open>unpack_dest\<close> itself, a directory.\<close>

definition lookup :: "tree \<Rightarrow> path \<Rightarrow> node option" where
  "lookup fs p = (if p = [] then Some Dir else map_of fs p)"

definition is_file :: "node option \<Rightarrow> bool" where
  "is_file n = (case n of Some (File _ _) \<Rightarrow> True | _ \<Rightarrow> False)"

text \<open>
  What the operating system answers when the parent of \<open>p\<close> is not a directory:
  \<open>ENOTDIR\<close> when a file stands on the way, \<open>ENOENT\<close> when a component is missing.
\<close>

definition parent_check :: "tree \<Rightarrow> path \<Rightarrow> error option" where
  "parent_check fs p =
     (if lookup fs (butlast p) = Some Dir then None
      else if \<exists>q \<in> set (prefixes (butlast p)). is_file (lookup fs q) then Some NotADirectoryError
      else Some FileNotFoundError)"

text \<open>
  \<open>Path.touch()\<close>: an existing entry gets a new modification time and keeps its
  content; a missing one is created empty. Directories carry no time in the model.
\<close>

definition touch :: "tree \<Rightarrow> path \<Rightarrow> int \<Rightarrow> int \<Rightarrow> error + tree" where
  "touch fs p mode now =
     (case parent_check fs p of
        Some e \<Rightarrow> Inl e
      | None \<Rightarrow>
         (case lookup fs p of
            None \<Rightarrow> Inr (AList.update p (File [] \<lparr>st_mode = mode, st_mtime = now\<rparr>) fs)
          | Some Dir \<Rightarrow> Inr fs
          | Some (File c st) \<Rightarrow> Inr (AList.update p (File c (st\<lparr>st_mtime := now\<rparr>)) fs)))"

text \<open>\<open>Path.mkdir()\<close> without \<open>parents\<close> or \<open>exist_ok\<close>.\<close>

definition mkdir :: "tree \<Rightarrow> path \<Rightarrow> error + tree" where
  "mkdir fs p =
     (case parent_check fs p of
        Some e \<Rightarrow> Inl e
      | None \<Rightarrow>
         (case lookup fs p of
            None \<Rightarrow> Inr (AList.update p Dir fs)
          | Some _ \<Rightarrow> Inl FileExistsError))"

text \<open>
  \<open>Path.write_text(data)\<close>, and \<open>open("w")\<close> followed by writes and close: the file is
  created or truncated, and holds \<open>data\<close> afterwards. An existing file keeps its mode.
\<close>

definition write_text :: "tree \<Rightarrow> path \<Rightarrow> bytes \<Rightarrow> int \<Rightarrow> int \<Rightarrow> error + tree" where
  "write_text fs p data mode now =
     (case parent_check fs p of
        Some e \<Rightarrow> Inl e
      | None \<Rightarrow>
         (case lookup fs p of
            None \<Rightarrow> Inr (AList.update p (File data \<lparr>st_mode = mode, st_mtime = now\<rparr>) fs)
          | Some Dir \<Rightarrow> Inl IsADirectoryError
          | Some (File c st) \<Rightarrow> Inr (AList.update p (File data (st\<lparr>st_mtime := now\<rparr>)) fs)))"

text \<open>\<open>os.stat\<close> and \<open>Path.read_bytes()\<close> of a regular file.\<close>

definition read_bytes :: "tree \<Rightarrow> path \<Rightarrow> error + (bytes \<times> stat)" where
  "read_bytes fs p =
     (case lookup fs p of
        None \<Rightarrow> Inl FileNotFoundError
      | Some Dir \<Rightarrow> Inl IsADirectoryError
      | Some (File c st) \<Rightarrow> Inr (c, st))"

text \<open>\<open>d.glob(pre + "*")\<close>: the entries of directory \<open>d\<close>, files or directories, whose
  name starts with \<open>pre\<close>.\<close>

definition glob_star :: "tree \<Rightarrow> path \<Rightarrow> string \<Rightarrow> path list" where
  "glob_star fs d pre =
     map fst (filter (\<lambda>(p, n). p \<noteq> [] \<and> butlast p = d \<and> take (length pre) (last p) = pre) fs)"

text \<open>The regular files of the tree, with content and stat result.\<close>

fun files :: "tree \<Rightarrow> (path \<times> bytes \<times> stat) list" where
  "files [] = []"
| "files ((p, Dir) # fs) = files fs"
| "files ((p, File c st) # fs) = (p, c, st) # files fs"

subsection \<open>What a run reads from its environment\<close>

text \<open>
  \<open>scan_rank\<close> fixes the order in which \<open>os.walk\<close> reports files (the order of a directory
  scan is the file system's own); \<open>clock k\<close> is the time at which write number \<open>k\<close> of the
  script happens (0 the placeholder, 1 METADATA, 2 WHEEL, 3 the module, 4 RECORD);
  \<open>sha256_hexdigest\<close> is \<open>hashlib.sha256(b).hexdigest()\<close>; \<open>create_mode\<close> is the mode of a
  newly created file; \<open>readme\<close> is the text of \<open>README.md\<close>.
\<close>

record env =
  scan_rank :: "path \<Rightarrow> nat"
  clock :: "nat \<Rightarrow> int"
  sha256_hexdigest :: "bytes \<Rightarrow> string"
  create_mode :: int
  readme :: string

record args =
  version :: string
  build_number :: int

definition os_walk :: "env \<Rightarrow> tree \<Rightarrow> (path \<times> bytes \<times> stat) list" where
  "os_walk env fs = sort_key (\<lambda>(p, c, st). scan_rank env p) (files fs)"

subsection \<open>Archive members\<close>

record zipinfo =
  filename :: string
  date_time :: int
  external_attr :: int
  file_size :: nat

text \<open>\<open>ZipInfo.from_file(path, arcname)\<close>, from the stat result and size of \<open>path\<close>.\<close>

definition from_file :: "stat \<Rightarrow> nat \<Rightarrow> path \<Rightarrow> zipinfo" where
  "from_file st st_size arcname =
     \<lparr>filename = str_path arcname, date_time = st_mtime st,
      external_attr = (st_mode st mod 65536) * 65536, file_size = st_size\<rparr>"

record wheel =
  wheel_file :: path
  archive :: "(zipinfo \<times> bytes) list"

subsection \<open>\<open>csv.writer\<close> with the default dialect\<close>

definition csv_special :: "char \<Rightarrow> bool" where
  "csv_special c = (c = CHR '','' \<or> c = CHR 0x22 \<or> c = CHR 0x0D \<or> c = CHR 0x0A)"

fun csv_escape :: "string \<Rightarrow> string" where
  "csv_escape [] = []"
| "csv_escape (c # cs) =
     (if c = CHR 0x22 then CHR 0x22 # CHR 0x22 # csv_escape cs else c # csv_escape cs)"

definition csv_field :: "string \<Rightarrow> string" where
  "csv_field f = (if \<exists>c \<in> set f. csv_special c then CHR 0x22 # csv_escape f @ [CHR 0x22] else f)"

definition writerow :: "string \<times> string \<times> string \<Rightarrow> string" where
  "writerow row =
     (case row of (a, b, c) \<Rightarrow>
        csv_field a @ CHR '','' # csv_field b @ CHR '','' # csv_field c @ [CHR 0x0D, CHR 0x0A])"

subsection \<open>The steps of \<open>build\<close>\<close>

text \<open>Lines 56 to 61: the placeholder in the empty \<open>lib-dynload\<close> directory.\<close>

definition keep_placeholder :: "env \<Rightarrow> string \<Rightarrow> tree \<Rightarrow> error + tree" where
  "keep_placeholder env plat fs =
     (if plat = ''linux'' \<or> plat = ''macos'' then
        (let lib_python_dirs = glob_star fs [''lilypond-binaries'', ''lib''] ''python'' in
         if length lib_python_dirs \<noteq> 1 then Inl AssertionError
         else touch fs (lib_python_dirs ! 0 @ [''lib-dynload'', ''.keep''])
                (create_mode env) (clock env 0))
      else Inr fs)"

definition dist_info_basename :: "args \<Rightarrow> path" where
  "dist_info_basename a = Path (''lilypond-'' @ version a @ ''.dist-info'')"

definition metadata_contents :: "env \<Rightarrow> args \<Rightarrow> string" where
  "metadata_contents env a =
     ''Metadata-Version: 2.1\<newline>'' @
     ''Name: lilypond\<newline>'' @
     ''Version: '' @ version a @ ''\<newline>'' @
     ''Home-page: https://gitlab.com/jeanas/lilypond-wheels.git\<newline>'' @
     ''License: GPL-3.0-or-later\<newline>'' @
     ''Summary: A redistribution of LilyPond to use it easily from Python code.\<newline>'' @
     ''Description-Content-Type: text/markdown\<newline>'' @
     ''\<newline>'' @
     readme env @ ''\<newline>''"

definition wheel_contents :: "args \<Rightarrow> string \<Rightarrow> string" where
  "wheel_contents a full_tag =
     ''Wheel-Version: 1.0\<newline>'' @
     ''Generator: lilypond_custom_generator\<newline>'' @
     ''Root-Is-Purelib: false\<newline>'' @
     ''Tag: '' @ full_tag @ ''\<newline>'' @
     ''Build: '' @ str_int (build_number a) @ ''\<newline>''"

definition module_contents :: string where
  "module_contents =
     ''\<newline>'' @
     ''from pathlib import Path\<newline>'' @
     ''\<newline>'' @
     ''def executable(script='' @ [CHR 0x22] @ ''lilypond'' @ [CHR 0x22] @ ''):\<newline>'' @
     ''    return Path(__file__).parent / '' @ [CHR 0x22] @ ''lilypond-binaries'' @ [CHR 0x22] @
     '' / '' @ [CHR 0x22] @ ''bin'' @ [CHR 0x22] @ '' / script\<newline>''"

text \<open>Lines 63 to 103: the \<open>.dist-info\<close> directory, METADATA, WHEEL and the module.\<close>

definition populate :: "env \<Rightarrow> args \<Rightarrow> string \<Rightarrow> tree \<Rightarrow> error + tree" where
  "populate env a full_tag fs =
     (let dist_info = dist_info_basename a in
      case mkdir fs dist_info of
        Inl e \<Rightarrow> Inl e
      | Inr fs1 \<Rightarrow>
         (case write_text fs1 (dist_info @ [''METADATA'']) (metadata_contents env a)
                 (create_mode env) (clock env 1) of
            Inl e \<Rightarrow> Inl e
          | Inr fs2 \<Rightarrow>
             (case write_text fs2 (dist_info @ [''WHEEL'']) (wheel_contents a full_tag)
                     (create_mode env) (clock env 2) of
                Inl e \<Rightarrow> Inl e
              | Inr fs3 \<Rightarrow>
                  write_text fs3 [''lilypond.py''] module_contents
                    (create_mode env) (clock env 3))))"

text \<open>Lines 107 to 117: one archive member and one RECORD row for each file of the walk.\<close>

definition member :: "path \<times> bytes \<times> stat \<Rightarrow> zipinfo \<times> bytes" where
  "member f = (case f of (relpath, contents, st) \<Rightarrow>
     (from_file st (length contents) relpath, contents))"

definition record_tuple :: "env \<Rightarrow> path \<times> bytes \<times> stat \<Rightarrow> string \<times> string \<times> string" where
  "record_tuple env f = (case f of (relpath, contents, st) \<Rightarrow>
     (str_path relpath,
      ''sha256='' @ sha256_hexdigest env contents,
      str_nat (file_size (from_file st (length contents) relpath))))"

text \<open>Lines 131 to 149: the two sorts; Python's \<open>list.sort\<close> is stable, as \<open>sort_key\<close> is.\<close>

definition prio :: "path \<Rightarrow> zipinfo \<times> bytes \<Rightarrow> nat" where
  "prio dist_info info_contents =
     (case info_contents of (info, _) \<Rightarrow>
        if is_relative_to (Path (filename info)) dist_info then 2
        else if is_relative_to (Path (filename info)) (Path ''lilypond-binaries/lib/'') then 1
        else 0)"

definition order_members :: "path \<Rightarrow> (zipinfo \<times> bytes) list \<Rightarrow> (zipinfo \<times> bytes) list" where
  "order_members dist_info members =
     sort_key (prio dist_info) (sort_key (\<lambda>info_contents. filename (fst info_contents)) members)"

definition workdir :: path where
  "workdir = Path ''build''"

definition build :: "env \<Rightarrow> args \<Rightarrow> string \<Rightarrow> string \<Rightarrow> tree \<Rightarrow> error + wheel" where
  "build env a plat plat_tag fs =
     (let full_tag = ''py3-none-'' @ plat_tag in
      case keep_placeholder env plat fs of
        Inl e \<Rightarrow> Inl e
      | Inr fs1 \<Rightarrow>
         (case populate env a full_tag fs1 of
            Inl e \<Rightarrow> Inl e
          | Inr fs2 \<Rightarrow>
             (let walked = os_walk env fs2;
                  members = map member walked;
                  record_tuples = map (record_tuple env) walked;
                  rel_record = dist_info_basename a @ [''RECORD'']
              in case write_text fs2 rel_record (concat (map writerow record_tuples))
                        (create_mode env) (clock env 4) of
                   Inl e \<Rightarrow> Inl e
                 | Inr fs3 \<Rightarrow>
                    (case read_bytes fs3 rel_record of
                       Inl e \<Rightarrow> Inl e
                     | Inr (contents, st) \<Rightarrow>
                        Inr \<lparr>wheel_file = workdir @ Path (''lilypond-'' @ version a @ ''-'' @
                                str_int (build_number a) @ ''-'' @ full_tag @ ''.whl''),
                             archive = order_members (dist_info_basename a)
                                (members @ [(from_file st (length contents) rel_record, contents)])\<rparr>))))"

subsection \<open>Reading the archive back\<close>

text \<open>
  The reference reader of comma-separated text, against which the writer is compared: rows
  end at CR, LF or CR LF; fields are separated by commas; a field in double quotes may hold
  any character, a double quote being written twice. A line with nothing on it reads as the
  empty row, as \<open>csv.reader\<close> reports it.
\<close>

datatype rstate = StartRecord | AfterCR | StartField | InField | InQuoted | QuoteInQuoted

fun csv_scan :: "rstate \<Rightarrow> string \<Rightarrow> string list \<Rightarrow> string \<Rightarrow> string list list" where
  "csv_scan s cur row [] = (if s = StartRecord \<or> s = AfterCR then [] else [row @ [cur]])"
| "csv_scan StartRecord cur row (c # cs) =
     (if c = CHR 0x0D then [] # csv_scan AfterCR [] [] cs
      else if c = CHR 0x0A then [] # csv_scan StartRecord [] [] cs
      else if c = CHR 0x22 then csv_scan InQuoted [] [] cs
      else if c = CHR '','' then csv_scan StartField [] [[]] cs
      else csv_scan InField [c] [] cs)"
| "csv_scan AfterCR cur row (c # cs) =
     (if c = CHR 0x0A then csv_scan StartRecord [] [] cs
      else if c = CHR 0x0D then [] # csv_scan AfterCR [] [] cs
      else if c = CHR 0x22 then csv_scan InQuoted [] [] cs
      else if c = CHR '','' then csv_scan StartField [] [[]] cs
      else csv_scan InField [c] [] cs)"
| "csv_scan StartField cur row (c # cs) =
     (if c = CHR 0x0D then (row @ [[]]) # csv_scan AfterCR [] [] cs
      else if c = CHR 0x0A then (row @ [[]]) # csv_scan StartRecord [] [] cs
      else if c = CHR 0x22 then csv_scan InQuoted [] row cs
      else if c = CHR '','' then csv_scan StartField [] (row @ [[]]) cs
      else csv_scan InField [c] row cs)"
| "csv_scan InField cur row (c # cs) =
     (if c = CHR 0x0D then (row @ [cur]) # csv_scan AfterCR [] [] cs
      else if c = CHR 0x0A then (row @ [cur]) # csv_scan StartRecord [] [] cs
      else if c = CHR '','' then csv_scan StartField [] (row @ [cur]) cs
      else csv_scan InField (cur @ [c]) row cs)"
| "csv_scan InQuoted cur row (c # cs) =
     (if c = CHR 0x22 then csv_scan QuoteInQuoted cur row cs
      else csv_scan InQuoted (cur @ [c]) row cs)"
| "csv_scan QuoteInQuoted cur row (c # cs) =
     (if c = CHR 0x22 then csv_scan InQuoted (cur @ [CHR 0x22]) row cs
      else if c = CHR '','' then csv_scan StartField [] (row @ [cur]) cs
      else if c = CHR 0x0D then (row @ [cur]) # csv_scan AfterCR [] [] cs
      else if c = CHR 0x0A then (row @ [cur]) # csv_scan StartRecord [] [] cs
      else csv_scan InField (cur @ [c]) row cs)"

definition csv_read :: "string \<Rightarrow> string list list" where
  "csv_read text = csv_scan StartRecord [] [] text"

text \<open>The value of a string of decimal digits.\<close>

definition is_digit :: "char \<Rightarrow> bool" where
  "is_digit c = (48 \<le> (of_char c :: nat) \<and> (of_char c :: nat) \<le> 57)"

definition decimal_value :: "string \<Rightarrow> nat" where
  "decimal_value s = foldl (\<lambda>n c. 10 * n + (of_char c - 48)) 0 s"

text \<open>The content stored in the archive under a name, and the rows of its RECORD.\<close>

definition member_contents :: "wheel \<Rightarrow> string \<Rightarrow> bytes option" where
  "member_contents w name = map_of (map (\<lambda>m. (filename (fst m), snd m)) (archive w)) name"

definition record_name :: "args \<Rightarrow> string" where
  "record_name a = str_path (dist_info_basename a @ [''RECORD''])"

definition record_rows :: "args \<Rightarrow> wheel \<Rightarrow> string list list" where
  "record_rows a w = (case member_contents w (record_name a) of None \<Rightarrow> [] | Some text \<Rightarrow> csv_read text)"

subsection \<open>Well-formed trees\<close>

text \<open>
  A name in a directory is not empty, is not \<open>.\<close> and holds no slash; a tree lists every
  path once, and every entry lies in a directory.
\<close>

definition plain :: "string \<Rightarrow> bool" where
  "plain w = (w \<noteq> [] \<and> w \<noteq> ''.'' \<and> CHR ''/'' \<notin> set w)"

definition wf_tree :: "tree \<Rightarrow> bool" where
  "wf_tree fs =
     (distinct (map fst fs) \<and>
      (\<forall>(p, n) \<in> set fs. p \<noteq> [] \<and> list_all plain p \<and> lookup fs (butlast p) = Some Dir))"

subsection \<open>The interpreter directories, in the words of the specification\<close>

text \<open>
  The specification speaks of the \<open>python*\<close> subdirectories of
  \<open>lilypond-binaries/lib\<close>: the entries of that directory that are directories and
  whose name starts with \<open>python\<close>. The script does not compute this list; it is here
  to be compared with what the script counts.
\<close>

definition python_subdirectories :: "tree \<Rightarrow> path list" where
  "python_subdirectories fs =
     map fst (filter (\<lambda>(p, n). n = Dir \<and> p \<noteq> [] \<and>
        butlast p = [''lilypond-binaries'', ''lib''] \<and> prefix ''python'' (last p)) fs)"

subsection \<open>Comparing two runs\<close>

text \<open>The paths a run writes, and an archive member with the time of a written file blanked.\<close>

definition written :: "args \<Rightarrow> string \<Rightarrow> tree \<Rightarrow> path list" where
  "written a plat fs =
     (if plat = ''linux'' \<or> plat = ''macos''
      then map (\<lambda>d. d @ [''lib-dynload'', ''.keep''])
             (glob_star fs [''lilypond-binaries'', ''lib''] ''python'')
      else []) @
     [dist_info_basename a @ [''METADATA''], dist_info_basename a @ [''WHEEL''],
      [''lilypond.py''], dist_info_basename a @ [''RECORD'']]"

definition forget_time :: "string list \<Rightarrow> zipinfo \<times> bytes \<Rightarrow> zipinfo \<times> bytes" where
  "forget_time names m =
     (if filename (fst m) \<in> set names then ((fst m)\<lparr>date_time := 0\<rparr>, snd m) else m)"

text \<open>An archive member with all of RECORD blanked but its name and mode bits.\<close>

definition forget_record :: "string \<Rightarrow> zipinfo \<times> bytes \<Rightarrow> zipinfo \<times> bytes" where
  "forget_record name m =
     (if filename (fst m) = name
      then (\<lparr>filename = name, date_time = 0, external_attr = external_attr (fst m),
             file_size = 0\<rparr>, [])
      else m)"

text \<open>
  For the comparison of the trees of two runs: an entry with its modification time blanked
  where its path is one of \<open>W\<close>.
\<close>

definition clear_time :: "node \<Rightarrow> node" where
  "clear_time n = (case n of Dir \<Rightarrow> Dir | File c st \<Rightarrow> File c (st\<lparr>st_mtime := 0\<rparr>))"

definition blur :: "path set \<Rightarrow> path \<times> node \<Rightarrow> path \<times> node" where
  "blur W e = (if fst e \<in> W then (fst e, clear_time (snd e)) else e)"

definition blur_file :: "path set \<Rightarrow> path \<times> bytes \<times> stat \<Rightarrow> path \<times> bytes \<times> stat" where
  "blur_file W f =
     (case f of (p, c, st) \<Rightarrow> (p, c, if p \<in> W then st\<lparr>st_mtime := 0\<rparr> else st))"

subsection \<open>Example inputs\<close>

text \<open>
  A small Linux tree, an environment whose digest stands in for SHA-256 (the theorems hold
  for every digest function), and a later run of the same build.
\<close>

definition ex_env :: env where
  "ex_env = \<lparr>scan_rank = (\<lambda>p. length p), clock = (\<lambda>k. 2000 + int k),
     sha256_hexdigest = (\<lambda>b. ''d'' @ str_nat (length b)), create_mode = 33188,
     readme = ''Hi''\<rparr>"

definition ex_env_later :: env where
  "ex_env_later = ex_env\<lparr>clock := (\<lambda>k. 5000 + int k)\<rparr>"

definition ex_args :: args where
  "ex_args = \<lparr>version = ''2.24.3'', build_number = 1\<rparr>"

definition ex_tree :: tree where
  "ex_tree =
    [([''lilypond-binaries''], Dir),
     ([''lilypond-binaries'', ''bin''], Dir),
     ([''lilypond-binaries'', ''bin'', ''lilypond''],
        File ''ELF'' \<lparr>st_mode = 33261, st_mtime = 1000\<rparr>),
     ([''lilypond-binaries'', ''lib''], Dir),
     ([''lilypond-binaries'', ''lib'', ''python3.10''], Dir),
     ([''lilypond-binaries'', ''lib'', ''python3.10'', ''os.py''],
        File ''import'' \<lparr>st_mode = 33188, st_mtime = 1000\<rparr>),
     ([''lilypond-binaries'', ''lib'', ''python3.10'', ''lib-dynload''], Dir)]"

definition ex_tree_two :: tree where
  "ex_tree_two = ex_tree @ [([''lilypond-binaries'', ''lib'', ''python3.11''], Dir)]"

text \<open>
  The same environment with another walk order (longest paths first), and with both
  another clock and another walk order; the RECORD of the example build under the other
  walk order.
\<close>

definition ex_env_rescan :: env where
  "ex_env_rescan = ex_env\<lparr>scan_rank := (\<lambda>p. 10 - length p)\<rparr>"

definition ex_env_other :: env where
  "ex_env_other = ex_env\<lparr>clock := (\<lambda>k. 5000 + int k), scan_rank := (\<lambda>p. 10 - length p)\<rparr>"

definition ex_record_rescan :: string where
  "ex_record_rescan =
     ''lilypond-binaries/lib/python3.10/lib-dynload/.keep,sha256=d0,0'' @ [CHR 0x0D, CHR 0x0A] @
     ''lilypond-binaries/lib/python3.10/os.py,sha256=d6,6'' @ [CHR 0x0D, CHR 0x0A] @
     ''lilypond-binaries/bin/lilypond,sha256=d3,3'' @ [CHR 0x0D, CHR 0x0A] @
     ''lilypond-2.24.3.dist-info/METADATA,sha256=d253,253'' @ [CHR 0x0D, CHR 0x0A] @
     ''lilypond-2.24.3.dist-info/WHEEL,sha256=d123,123'' @ [CHR 0x0D, CHR 0x0A] @
     ''lilypond.py,sha256=d134,134'' @ [CHR 0x0D, CHR 0x0A]"

text \<open>
  Two more trees: one with a regular file \<open>python.txt\<close> beside the interpreter
  directory, one whose only \<open>python*\<close> entry is a regular file.
\<close>

definition ex_tree_file :: tree where
  "ex_tree_file = ex_tree @
     [([''lilypond-binaries'', ''lib'', ''python.txt''],
        File ''notes'' \<lparr>st_mode = 33188, st_mtime = 1000\<rparr>)]"

definition ex_tree_only_file :: tree where
  "ex_tree_only_file =
    [([''lilypond-binaries''], Dir),
     ([''lilypond-binaries'', ''lib''], Dir),
     ([''lilypond-binaries'', ''lib'', ''python3.so''],
        File ''ELF'' \<lparr>st_mode = 33261, st_mtime = 1000\<rparr>)]"

definition ex_wheel :: wheel where
  "ex_wheel = projr (build ex_env ex_args ''linux'' ''manylinux2014_x86_64'' ex_tree)"

definition ex_wheel_rescan :: wheel where
  "ex_wheel_rescan = projr (build ex_env_rescan ex_args ''linux'' ''manylinux2014_x86_64'' ex_tree)"

definition ex_wheel_other :: wheel where
  "ex_wheel_other = projr (build ex_env_other ex_args ''linux'' ''manylinux2014_x86_64'' ex_tree)"

definition ex_wheel_later :: wheel where
  "ex_wheel_later = projr (build ex_env_later ex_args ''linux'' ''manylinux2014_x86_64'' ex_tree)"

definition ex_record :: string where
  "ex_record =
     ''lilypond.py,sha256=d134,134'' @ [CHR 0x0D, CHR 0x0A] @
     ''lilypond-2.24.3.dist-info/METADATA,sha256=d253,253'' @ [CHR 0x0D, CHR 0x0A] @
     ''lilypond-2.24.3.dist-info/WHEEL,sha256=d123,123'' @ [CHR 0x0D, CHR 0x0A] @
     ''lilypond-binaries/bin/lilypond,sha256=d3,3'' @ [CHR 0x0D, CHR 0x0A] @
     ''lilypond-binaries/lib/python3.10/os.py,sha256=d6,6'' @ [CHR 0x0D, CHR 0x0A] @
     ''lilypond-binaries/lib/python3.10/lib-dynload/.keep,sha256=d0,0'' @ [CHR 0x0D, CHR 0x0A]"

section \<open>Properties\<close>

subsection \<open>The shape of a successful build\<close>

lemma build_Inr:
  assumes "build env a plat plat_tag fs = Inr w"
  obtains fs1 fs2 fs3 contents st where
    "keep_placeholder env plat fs = Inr fs1"
    "populate env a (''py3-none-'' @ plat_tag) fs1 = Inr fs2"
    "write_text fs2 (dist_info_basename a @ [''RECORD''])
       (concat (map writerow (map (record_tuple env) (os_walk env fs2))))
       (create_mode env) (clock env 4) = Inr fs3"
    "read_bytes fs3 (dist_info_basename a @ [''RECORD'']) = Inr (contents, st)"
    "wheel_file w = workdir @ Path (''lilypond-'' @ version a @ ''-'' @
        str_int (build_number a) @ ''-'' @ (''py3-none-'' @ plat_tag) @ ''.whl'')"
    "archive w = order_members (dist_info_basename a)
        (map member (os_walk env fs2) @
         [(from_file st (length contents) (dist_info_basename a @ [''RECORD'']), contents)])"
  using assms unfolding build_def Let_def
  by (auto split: sum.splits prod.splits)

lemma ex_build:
  "build ex_env ex_args ''linux'' ''manylinux2014_x86_64'' ex_tree = Inr ex_wheel"
  unfolding ex_wheel_def by code_simp

lemma archive_sorted_prio:
  assumes "build env a plat plat_tag fs = Inr w"
  shows "sorted (map (prio (dist_info_basename a)) (archive w))"
  using assms by (elim build_Inr) (simp add: order_members_def)

lemma archive_prio_index:
  assumes "build env a plat plat_tag fs = Inr w"
    and "i < length (archive w)" and "j < length (archive w)"
    and "prio (dist_info_basename a) (archive w ! i) < prio (dist_info_basename a) (archive w ! j)"
  shows "i < j"
proof (rule ccontr)
  assume "\<not> i < j"
  then have "j \<le> i" by simp
  with archive_sorted_prio[OF assms(1)] assms(2)
  have "map (prio (dist_info_basename a)) (archive w) ! j
        \<le> map (prio (dist_info_basename a)) (archive w) ! i"
    by (simp add: sorted_iff_nth_mono del: nth_map)
  with assms(2,3,4) show False by simp
qed

lemma nth_decomp:
  assumes "i < j" "j < length xs"
  shows "\<exists>as bs cs. xs = as @ xs ! i # bs @ xs ! j # cs"
proof -
  have 1: "xs = take j xs @ xs ! j # drop (Suc j) xs"
    using assms(2) by (rule id_take_nth_drop)
  have "i < length (take j xs)" using assms by simp
  then have "take j xs = take i (take j xs) @ take j xs ! i # drop (Suc i) (take j xs)"
    by (rule id_take_nth_drop)
  moreover have "take j xs ! i = xs ! i" using assms by simp
  ultimately have 2: "take j xs = take i (take j xs) @ xs ! i # drop (Suc i) (take j xs)"
    by simp
  show ?thesis
    apply (rule exI[of _ "take i (take j xs)"])
    apply (rule exI[of _ "drop (Suc i) (take j xs)"])
    apply (rule exI[of _ "drop (Suc j) xs"])
    using 1 2 by (metis append.assoc append_Cons)
qed

lemma sorted_filter_pair:
  assumes "sorted (map f (filter P xs))" "xs = as @ x # bs @ y # cs" "P x" "P y"
  shows "f x \<le> f y"
  using assms by (simp add: sorted_append)

text \<open>
  Claim C5. The priority sort is stable with respect to the alphabetical sort: it leaves the
  members of each bucket in the order the alphabetical pass gave them, so two members of
  the same bucket stand in the archive in the order of their relative paths (as strings,
  compared character by character).
\<close>

theorem bucket_alphabetical:
  assumes "build env a plat plat_tag fs = Inr w"
  shows "\<exists>ys. sorted (map (\<lambda>m. filename (fst m)) ys) \<and>
           archive w = sort_key (prio (dist_info_basename a)) ys \<and>
           (\<forall>k. filter (\<lambda>m. prio (dist_info_basename a) m = k) (archive w)
                = filter (\<lambda>m. prio (dist_info_basename a) m = k) ys) \<and>
           (\<forall>i j. i < j \<and> j < length (archive w) \<and>
                prio (dist_info_basename a) (archive w ! i)
                  = prio (dist_info_basename a) (archive w ! j)
              \<longrightarrow> filename (fst (archive w ! i)) \<le> filename (fst (archive w ! j)))"
proof -
  let ?d = "dist_info_basename a"
  from assms obtain ms where a: "archive w = order_members ?d ms"
    by (elim build_Inr) blast
  define ys where "ys = sort_key (\<lambda>m. filename (fst m)) ms"
  have s: "sorted (map (\<lambda>m. filename (fst m)) ys)" by (simp add: ys_def)
  have o: "archive w = sort_key (prio ?d) ys" by (simp add: a order_members_def ys_def)
  have st: "filter (\<lambda>m. prio ?d m = k) (archive w) = filter (\<lambda>m. prio ?d m = k) ys" for k
    unfolding o by (rule sort_key_stable)
  have pw: "filename (fst (archive w ! i)) \<le> filename (fst (archive w ! j))"
    if "i < j" "j < length (archive w)" "prio ?d (archive w ! i) = prio ?d (archive w ! j)" for i j
  proof -
    let ?k = "prio ?d (archive w ! j)"
    from nth_decomp[OF that(1,2)] obtain as bs cs
      where d: "archive w = as @ archive w ! i # bs @ archive w ! j # cs" by blast
    have "sorted (map (\<lambda>m. filename (fst m)) (filter (\<lambda>m. prio ?d m = ?k) (archive w)))"
      unfolding st by (rule sorted_filter[OF s])
    from sorted_filter_pair[OF this d] that(3) show ?thesis by simp
  qed
  show ?thesis
    apply (rule exI[of _ ys])
    using s o st pw by blast
qed

theorem bucket_alphabetical_witness:
  "build ex_env ex_args ''linux'' ''manylinux2014_x86_64'' ex_tree = Inr ex_wheel \<and>
   (2::nat) < 3 \<and> 3 < length (archive ex_wheel) \<and>
   prio (dist_info_basename ex_args) (archive ex_wheel ! 2) = 1 \<and>
   prio (dist_info_basename ex_args) (archive ex_wheel ! 3) = 1 \<and>
   filename (fst (archive ex_wheel ! 2)) = ''lilypond-binaries/lib/python3.10/lib-dynload/.keep'' \<and>
   filename (fst (archive ex_wheel ! 3)) = ''lilypond-binaries/lib/python3.10/os.py'' \<and>
   filename (fst (archive ex_wheel ! 2)) \<le> filename (fst (archive ex_wheel ! 3))"
proof -
  have l: "3 < length (archive ex_wheel)"
    unfolding ex_wheel_def by code_simp
  have p: "prio (dist_info_basename ex_args) (archive ex_wheel ! 2) = 1"
    "prio (dist_info_basename ex_args) (archive ex_wheel ! 3) = 1"
    unfolding ex_wheel_def by code_simp+
  have n: "filename (fst (archive ex_wheel ! 2)) = ''lilypond-binaries/lib/python3.10/lib-dynload/.keep''"
    "filename (fst (archive ex_wheel ! 3)) = ''lilypond-binaries/lib/python3.10/os.py''"
    unfolding ex_wheel_def by code_simp+
  from bucket_alphabetical[OF ex_build]
  have "\<forall>i j. i < j \<and> j < length (archive ex_wheel) \<and>
           prio (dist_info_basename ex_args) (archive ex_wheel ! i)
             = prio (dist_info_basename ex_args) (archive ex_wheel ! j)
         \<longrightarrow> filename (fst (archive ex_wheel ! i)) \<le> filename (fst (archive ex_wheel ! j))"
    by blast
  then have "(2::nat) < 3 \<and> 3 < length (archive ex_wheel) \<and>
           prio (dist_info_basename ex_args) (archive ex_wheel ! 2)
             = prio (dist_info_basename ex_args) (archive ex_wheel ! 3)
         \<longrightarrow> filename (fst (archive ex_wheel ! 2)) \<le> filename (fst (archive ex_wheel ! 3))"
    by blast
  with l p have "filename (fst (archive ex_wheel ! 2)) \<le> filename (fst (archive ex_wheel ! 3))"
    by simp
  with ex_build l p n show ?thesis by simp
qed

subsection \<open>Paths and numbers as strings\<close>

lemma split_slash_not_Nil [simp]: "split_slash s \<noteq> []"
  by (induction s) (auto split: list.splits)

lemma split_slash_no_slash: "CHR ''/'' \<notin> set s \<Longrightarrow> split_slash s = [s]"
  by (induction s) auto

lemma Path_plain: "plain s \<Longrightarrow> Path s = [s]"
  by (simp add: Path_def plain_def split_slash_no_slash)

lemma of_char_digit_char: "d < 10 \<Longrightarrow> of_char (digit_char d) = 48 + d"
  by (simp add: digit_char_def)

lemma digit_char_not_slash: "d < 10 \<Longrightarrow> digit_char d \<noteq> CHR ''/''"
proof
  assume "d < 10" "digit_char d = CHR ''/''"
  then have "(of_char (digit_char d) :: nat) = of_char CHR ''/''" by simp
  with \<open>d < 10\<close> show False by (simp add: of_char_digit_char)
qed

lemma str_nat_no_slash: "CHR ''/'' \<notin> set (str_nat n)"
proof (induction n rule: str_nat.induct)
  case (1 n)
  show ?case
  proof (cases "n < 10")
    case True
    then show ?thesis using digit_char_not_slash[of n] by (subst str_nat.simps) auto
  next
    case False
    have "n mod 10 < 10" by simp
    from digit_char_not_slash[OF this] 1[OF False] False
    show ?thesis by (subst str_nat.simps) auto
  qed
qed

lemma str_int_no_slash: "CHR ''/'' \<notin> set (str_int i)"
  by (simp add: str_int_def str_nat_no_slash)

text \<open>
  Claim C9. The archive of a build is written to
  \<open>lilypond-<version>-<build number>-py3-none-<platform tag>.whl\<close> in the work
  directory \<open>build\<close>, for a version and a platform tag without a slash.
\<close>

theorem wheel_file_name:
  assumes "build env a plat plat_tag fs = Inr w"
    and "CHR ''/'' \<notin> set (version a)" and "CHR ''/'' \<notin> set plat_tag"
  shows "wheel_file w =
     [''build'', ''lilypond-'' @ version a @ ''-'' @ str_int (build_number a) @
                ''-py3-none-'' @ plat_tag @ ''.whl'']"
proof -
  let ?n = "''lilypond-'' @ version a @ ''-'' @ str_int (build_number a) @ ''-'' @
              (''py3-none-'' @ plat_tag) @ ''.whl''"
  have "plain ?n"
    using assms(2,3) by (simp add: plain_def str_int_no_slash)
  then have "Path ?n = [?n]" by (rule Path_plain)
  moreover have "workdir = [''build'']"
    unfolding workdir_def by (rule Path_plain) (simp add: plain_def)
  moreover from assms(1) have "wheel_file w = workdir @ Path ?n"
    by (elim build_Inr) assumption
  ultimately show ?thesis by simp
qed

theorem wheel_file_name_witness:
  "build ex_env ex_args ''linux'' ''manylinux2014_x86_64'' ex_tree = Inr ex_wheel \<and>
   CHR ''/'' \<notin> set (version ex_args) \<and> CHR ''/'' \<notin> set ''manylinux2014_x86_64'' \<and>
   wheel_file ex_wheel = [''build'', ''lilypond-2.24.3-1-py3-none-manylinux2014_x86_64.whl'']"
proof -
  have v: "CHR ''/'' \<notin> set (version ex_args)" by (simp add: ex_args_def)
  have t: "CHR ''/'' \<notin> set ''manylinux2014_x86_64''" by simp
  have s: "str_int (build_number ex_args) = ''1''" by code_simp
  from wheel_file_name[OF ex_build v t] s
  have "wheel_file ex_wheel = [''build'', ''lilypond-2.24.3-1-py3-none-manylinux2014_x86_64.whl'']"
    by (simp add: ex_args_def)
  with ex_build v t show ?thesis by simp
qed

subsection \<open>The writer and the reader of comma-separated text agree\<close>

lemma scan_plain:
  "\<forall>c \<in> set f. \<not> csv_special c \<Longrightarrow>
   csv_scan InField cur row (f @ rest) = csv_scan InField (cur @ f) row rest"
  by (induction f arbitrary: cur) (auto simp: csv_special_def)

lemma scan_quoted:
  "csv_scan InQuoted cur row (csv_escape f @ rest) = csv_scan InQuoted (cur @ f) row rest"
  by (induction f arbitrary: cur) auto

lemma scan_field_comma:
  "csv_scan StartField cur row (csv_field f @ CHR '','' # rest)
     = csv_scan StartField [] (row @ [f]) rest"
proof (cases "\<exists>c \<in> set f. csv_special c")
  case True
  then show ?thesis by (simp add: csv_field_def scan_quoted)
next
  case False
  show ?thesis
  proof (cases f)
    case Nil
    then show ?thesis by (simp add: csv_field_def)
  next
    case (Cons c f')
    with False have "\<not> csv_special c" "\<forall>c \<in> set f'. \<not> csv_special c" by auto
    with Cons False scan_plain[of f' "[c]" row "CHR '','' # rest"] show ?thesis
      by (simp add: csv_field_def csv_special_def)
  qed
qed

lemma scan_first_field_comma:
  "csv_scan StartRecord cur row (csv_field f @ CHR '','' # rest)
     = csv_scan StartField [] [f] rest"
proof (cases "\<exists>c \<in> set f. csv_special c")
  case True
  then show ?thesis by (simp add: csv_field_def scan_quoted)
next
  case False
  show ?thesis
  proof (cases f)
    case Nil
    then show ?thesis by (simp add: csv_field_def)
  next
    case (Cons c f')
    with False have "\<not> csv_special c" "\<forall>c \<in> set f'. \<not> csv_special c" by auto
    with Cons False scan_plain[of f' "[c]" "[]" "CHR '','' # rest"] show ?thesis
      by (simp add: csv_field_def csv_special_def)
  qed
qed

lemma scan_field_crlf:
  "csv_scan StartField cur row (csv_field f @ CHR 0x0D # CHR 0x0A # rest)
     = (row @ [f]) # csv_scan StartRecord [] [] rest"
proof (cases "\<exists>c \<in> set f. csv_special c")
  case True
  then show ?thesis by (simp add: csv_field_def scan_quoted)
next
  case False
  show ?thesis
  proof (cases f)
    case Nil
    then show ?thesis by (simp add: csv_field_def)
  next
    case (Cons c f')
    with False have "\<not> csv_special c" "\<forall>c \<in> set f'. \<not> csv_special c" by auto
    with Cons False scan_plain[of f' "[c]" row "CHR 0x0D # CHR 0x0A # rest"] show ?thesis
      by (simp add: csv_field_def csv_special_def)
  qed
qed

lemma scan_writerow:
  "csv_scan StartRecord [] [] (writerow (a, b, c) @ rest)
     = [a, b, c] # csv_scan StartRecord [] [] rest"
  by (simp add: writerow_def scan_first_field_comma scan_field_comma scan_field_crlf)

lemma csv_read_writerows:
  "csv_read (concat (map writerow rs)) = map (\<lambda>(a, b, c). [a, b, c]) rs"
  unfolding csv_read_def
proof (induction rs)
  case Nil
  show ?case by simp
next
  case (Cons r rs)
  obtain a b c where r: "r = (a, b, c)" by (cases r)
  with Cons show ?case by (simp add: scan_writerow)
qed

subsection \<open>Decimal strings\<close>

lemma decimal_value_snoc:
  "decimal_value (s @ [c]) = 10 * decimal_value s + (of_char c - 48)"
  by (simp add: decimal_value_def)

lemma decimal_value_str_nat: "decimal_value (str_nat n) = n"
proof (induction n rule: str_nat.induct)
  case (1 n)
  show ?case
  proof (cases "n < 10")
    case True
    then show ?thesis
      by (subst str_nat.simps) (simp add: decimal_value_def of_char_digit_char)
  next
    case False
    have "n mod 10 < 10" by simp
    from of_char_digit_char[OF this] 1[OF False] False
    show ?thesis by (subst str_nat.simps) (simp add: decimal_value_snoc)
  qed
qed

lemma is_digit_digit_char: "d < 10 \<Longrightarrow> is_digit (digit_char d)"
  by (simp add: is_digit_def of_char_digit_char)

lemma digits_str_nat: "list_all is_digit (str_nat n)"
proof (induction n rule: str_nat.induct)
  case (1 n)
  show ?case
  proof (cases "n < 10")
    case True
    then show ?thesis
      by (subst str_nat.simps) (simp add: is_digit_digit_char)
  next
    case False
    have "n mod 10 < 10" by simp
    from is_digit_digit_char[OF this] 1[OF False] False
    show ?thesis by (subst str_nat.simps) simp
  qed
qed

subsection \<open>Joining and splitting paths\<close>

lemma str_path_snoc: "p \<noteq> [] \<Longrightarrow> str_path (p @ [w]) = str_path p @ CHR ''/'' # w"
  by (induction p rule: str_path.induct) auto

lemma split_slash_component:
  "CHR ''/'' \<notin> set w \<Longrightarrow> split_slash (w @ CHR ''/'' # s) = w # split_slash s"
  by (induction w) (auto split: list.splits)

lemma split_slash_str_path:
  "p \<noteq> [] \<Longrightarrow> list_all plain p \<Longrightarrow> split_slash (str_path p) = p"
  by (induction p rule: str_path.induct)
     (auto simp: plain_def split_slash_no_slash split_slash_component)

lemma Path_str_path: "list_all plain p \<Longrightarrow> Path (str_path p) = p"
proof (cases "p = []")
  case True
  then show ?thesis by (simp add: Path_def)
next
  case False
  assume "list_all plain p"
  with False have "split_slash (str_path p) = p" by (rule split_slash_str_path)
  moreover from \<open>list_all plain p\<close> have "filter (\<lambda>w. w \<noteq> [] \<and> w \<noteq> ''.'') p = p"
    by (induction p) (auto simp: plain_def)
  ultimately show ?thesis by (simp add: Path_def)
qed

lemma str_path_inj:
  "list_all plain p \<Longrightarrow> list_all plain q \<Longrightarrow> str_path p = str_path q \<Longrightarrow> p = q"
  by (metis Path_str_path)

lemma split_slash_no_slashes: "w \<in> set (split_slash s) \<Longrightarrow> CHR ''/'' \<notin> set w"
  by (induction s arbitrary: w) (auto split: list.splits if_splits)

lemma Path_components_plain: "list_all plain (Path s)"
  by (auto simp: Path_def plain_def list_all_iff dest: split_slash_no_slashes)

subsection \<open>Operations on well-formed trees\<close>

lemma wf_tree_iff:
  "wf_tree fs \<longleftrightarrow>
     distinct (map fst fs) \<and>
     (\<forall>p n. map_of fs p = Some n \<longrightarrow>
        p \<noteq> [] \<and> list_all plain p \<and> lookup fs (butlast p) = Some Dir)"
proof (cases "distinct (map fst fs)")
  case True
  then show ?thesis by (simp add: wf_tree_def Ball_def split_beta)
next
  case False
  then show ?thesis by (simp add: wf_tree_def)
qed

lemma wf_tree_update:
  assumes "wf_tree fs" "p \<noteq> []" "list_all plain p" "lookup fs (butlast p) = Some Dir"
    and "n = Dir \<or> map_of fs p \<noteq> Some Dir"
  shows "wf_tree (AList.update p n fs)"
  unfolding wf_tree_iff
proof (intro conjI allI impI)
  from assms(1) show "distinct (map fst (AList.update p n fs))"
    by (simp add: wf_tree_iff distinct_update)
next
  fix q m assume m: "map_of (AList.update p n fs) q = Some m"
  then have q: "q = p \<or> map_of fs q = Some m"
    by (simp add: update_conv' split: if_splits)
  from assms(1) have w: "map_of fs q = Some m \<Longrightarrow>
      q \<noteq> [] \<and> list_all plain q \<and> lookup fs (butlast q) = Some Dir"
    unfolding wf_tree_iff by blast
  from q w assms(2) show "q \<noteq> []" by blast
  from q w assms(3) show "list_all plain q" by blast
  from q w assms(4) have b: "lookup fs (butlast q) = Some Dir" by blast
  show "lookup (AList.update p n fs) (butlast q) = Some Dir"
  proof (cases "butlast q = []")
    case True
    then show ?thesis by (simp add: lookup_def)
  next
    case False
    with b have m: "map_of fs (butlast q) = Some Dir" by (simp add: lookup_def)
    show ?thesis
    proof (cases "butlast q = p")
      case True
      with m assms(5) have "n = Dir" by simp
      with True False show ?thesis by (simp add: lookup_def update_conv')
    next
      case neq: False
      with m False show ?thesis by (simp add: lookup_def update_conv')
    qed
  qed
qed

lemma parent_check_None: "parent_check fs p = None \<Longrightarrow> lookup fs (butlast p) = Some Dir"
  by (auto simp: parent_check_def split: if_splits)

lemma mkdir_Inr:
  assumes "mkdir fs p = Inr fs'"
  shows "p \<noteq> []" "map_of fs p = None" "lookup fs (butlast p) = Some Dir"
    "fs' = AList.update p Dir fs"
  using assms
  by (auto simp: mkdir_def lookup_def dest: parent_check_None split: option.splits if_splits)

lemma write_text_Inr:
  assumes "write_text fs p data mode now = Inr fs'"
  obtains st where "p \<noteq> []" "map_of fs p \<noteq> Some Dir" "lookup fs (butlast p) = Some Dir"
    "fs' = AList.update p (File data st) fs"
    "map_of fs p = None \<Longrightarrow> st = \<lparr>st_mode = mode, st_mtime = now\<rparr>"
    "st_mtime st = now"
  using assms
  by (auto simp: write_text_def lookup_def dest: parent_check_None
           split: option.splits if_splits node.splits)

lemma touch_Inr:
  assumes "touch fs p mode now = Inr fs'"
  shows "lookup fs (butlast p) = Some Dir"
    and "lookup fs p = Some Dir \<and> fs' = fs \<or>
         p \<noteq> [] \<and> (\<exists>c st. fs' = AList.update p (File c st) fs \<and> map_of fs p \<noteq> Some Dir \<and>
            (map_of fs p = None \<longrightarrow> c = []))"
  using assms
  by (auto simp: touch_def lookup_def dest: parent_check_None
           split: option.splits if_splits node.splits)

lemma wf_tree_mkdir:
  assumes "wf_tree fs" "list_all plain p" "mkdir fs p = Inr fs'"
  shows "wf_tree fs'"
  using mkdir_Inr[OF assms(3)] assms(1,2) by (simp add: wf_tree_update)

lemma wf_tree_write_text:
  assumes "wf_tree fs" "list_all plain p" "write_text fs p data mode now = Inr fs'"
  shows "wf_tree fs'"
  using assms(3)
proof (rule write_text_Inr)
  fix st assume "p \<noteq> []" "map_of fs p \<noteq> Some Dir" "lookup fs (butlast p) = Some Dir"
    "fs' = AList.update p (File data st) fs"
  with assms(1,2) show ?thesis by (simp add: wf_tree_update)
qed

lemma wf_tree_touch:
  assumes "wf_tree fs" "list_all plain p" "touch fs p mode now = Inr fs'"
  shows "wf_tree fs'"
  using touch_Inr[OF assms(3)] assms(1,2) by (auto simp: wf_tree_update)

lemma glob_star_entries: "p \<in> set (glob_star fs d pre) \<Longrightarrow> p \<in> fst ` set fs"
  by (auto simp: glob_star_def)

lemma wf_tree_entry_plain: "wf_tree fs \<Longrightarrow> p \<in> fst ` set fs \<Longrightarrow> list_all plain p"
  by (auto simp: wf_tree_def)

lemma wf_tree_keep_placeholder:
  assumes "wf_tree fs" "keep_placeholder env plat fs = Inr fs'"
  shows "wf_tree fs'"
proof (cases "plat = ''linux'' \<or> plat = ''macos''")
  case False
  with assms show ?thesis by (simp add: keep_placeholder_def)
next
  case True
  let ?g = "glob_star fs [''lilypond-binaries'', ''lib''] ''python''"
  from True assms(2) have l: "length ?g = 1"
    and t: "touch fs (?g ! 0 @ [''lib-dynload'', ''.keep'']) (create_mode env) (clock env 0) = Inr fs'"
    by (auto simp: keep_placeholder_def Let_def split: if_splits)
  from l have "?g ! 0 \<in> set ?g" by (simp del: One_nat_def)
  then have "list_all plain (?g ! 0)"
    using assms(1) by (blast intro: wf_tree_entry_plain glob_star_entries)
  then have "list_all plain (?g ! 0 @ [''lib-dynload'', ''.keep''])"
    by (simp add: plain_def)
  from wf_tree_touch[OF assms(1) this t] show ?thesis .
qed

subsection \<open>The files of a tree and the walk\<close>

lemma set_files: "set (files fs) = {(p, c, st). (p, File c st) \<in> set fs}"
  by (induction fs rule: files.induct) auto

lemma files_iff:
  "distinct (map fst fs) \<Longrightarrow> (p, c, st) \<in> set (files fs) \<longleftrightarrow> map_of fs p = Some (File c st)"
  by (simp add: set_files)

lemma files_keys: "set (map fst (files fs)) \<subseteq> set (map fst fs)"
  by (induction fs rule: files.induct) auto

lemma distinct_files: "distinct (map fst fs) \<Longrightarrow> distinct (map fst (files fs))"
proof (induction fs rule: files.induct)
  case (3 p c st fs)
  then show ?case using files_keys[of fs] by auto
qed simp_all

lemma set_os_walk: "set (os_walk env fs) = set (files fs)"
  by (simp add: os_walk_def)

lemma distinct_os_walk:
  assumes "distinct (map fst fs)"
  shows "distinct (map fst (os_walk env fs))"
proof -
  from distinct_files[OF assms] have "distinct (files fs)" "inj_on fst (set (files fs))"
    by (simp_all add: distinct_map)
  then show ?thesis by (simp add: distinct_map os_walk_def)
qed

lemma os_walk_iff:
  "wf_tree fs \<Longrightarrow> (p, c, st) \<in> set (os_walk env fs) \<longleftrightarrow> map_of fs p = Some (File c st)"
  by (simp add: set_os_walk files_iff wf_tree_iff)

lemma os_walk_plain:
  "wf_tree fs \<Longrightarrow> (p, c, st) \<in> set (os_walk env fs) \<Longrightarrow> list_all plain p"
  by (simp add: os_walk_iff) (simp add: wf_tree_iff)

subsection \<open>A directory that was just made is empty\<close>

lemma no_entries_below:
  assumes "wf_tree fs" "map_of fs d = None" "d \<noteq> []"
  shows "map_of fs p = Some n \<Longrightarrow> \<not> prefix d p"
proof (induction p arbitrary: n rule: rev_induct)
  case Nil
  with assms(3) show ?case by simp
next
  case (snoc x q)
  show ?case
  proof
    assume pre: "prefix d (q @ [x])"
    from snoc.prems assms(2) have "d \<noteq> q @ [x]" by auto
    with pre have pq: "prefix d q" by (auto simp: prefix_snoc)
    with assms(3) have "q \<noteq> []" by auto
    moreover from snoc.prems assms(1) have "lookup fs (butlast (q @ [x])) = Some Dir"
      unfolding wf_tree_iff by blast
    ultimately have "map_of fs q = Some Dir" by (simp add: lookup_def)
    from snoc.IH[OF this] pq show False by simp
  qed
qed

subsection \<open>The name of the dist-info directory\<close>

lemma split_slash_Cons:
  "c \<noteq> CHR ''/'' \<Longrightarrow> split_slash (c # cs) = (c # hd (split_slash cs)) # tl (split_slash cs)"
  by (cases "split_slash cs") auto

lemma dist_info_basename_eq:
  "\<exists>w ws. dist_info_basename a = (''lilypond-'' @ w) # ws"
  by (simp add: dist_info_basename_def Path_def split_slash_Cons del: split_slash.simps)

lemma dist_info_basename_not_Nil [simp]: "dist_info_basename a \<noteq> []"
  using dist_info_basename_eq[of a] by auto

lemma dist_info_basename_plain [simp]: "list_all plain (dist_info_basename a)"
  by (simp add: dist_info_basename_def Path_components_plain)

lemma module_not_in_dist_info: "\<not> prefix (dist_info_basename a) [''lilypond.py'']"
proof
  assume p: "prefix (dist_info_basename a) [''lilypond.py'']"
  obtain w ws where d: "dist_info_basename a = (''lilypond-'' @ w) # ws"
    using dist_info_basename_eq by blast
  from p show False unfolding d by simp
qed

subsection \<open>The tree after the metadata files and the module are written\<close>

lemma populate_Inr:
  assumes "populate env a full_tag fs = Inr fs'" "wf_tree fs"
  obtains st1 st2 st3 where
    "map_of fs (dist_info_basename a) = None"
    "wf_tree fs'"
    "map_of fs' = (map_of fs)
       (dist_info_basename a \<mapsto> Dir,
        dist_info_basename a @ [''METADATA''] \<mapsto> File (metadata_contents env a) st1,
        dist_info_basename a @ [''WHEEL''] \<mapsto> File (wheel_contents a full_tag) st2,
        [''lilypond.py''] \<mapsto> File module_contents st3)"
proof -
  let ?d = "dist_info_basename a"
  from assms(1) obtain fs1 fs2 fs3 where
    1: "mkdir fs ?d = Inr fs1" and
    2: "write_text fs1 (?d @ [''METADATA'']) (metadata_contents env a)
          (create_mode env) (clock env 1) = Inr fs2" and
    3: "write_text fs2 (?d @ [''WHEEL'']) (wheel_contents a full_tag)
          (create_mode env) (clock env 2) = Inr fs3" and
    4: "write_text fs3 [''lilypond.py''] module_contents (create_mode env) (clock env 3) = Inr fs'"
    unfolding populate_def Let_def by (auto split: sum.splits)
  have pl: "list_all plain (?d @ [''METADATA''])" "list_all plain (?d @ [''WHEEL''])"
    "list_all plain [''lilypond.py'']"
    by (simp_all add: plain_def)
  from mkdir_Inr[OF 1] have n: "map_of fs ?d = None" and e1: "fs1 = AList.update ?d Dir fs"
    by simp_all
  have w1: "wf_tree fs1" using wf_tree_mkdir[OF assms(2) _ 1] by simp
  have w2: "wf_tree fs2" using wf_tree_write_text[OF w1 pl(1) 2] .
  have w3: "wf_tree fs3" using wf_tree_write_text[OF w2 pl(2) 3] .
  have w4: "wf_tree fs'" using wf_tree_write_text[OF w3 pl(3) 4] .
  from 2 obtain st1 where e2: "fs2 = AList.update (?d @ [''METADATA''])
      (File (metadata_contents env a) st1) fs1"
    by (rule write_text_Inr)
  from 3 obtain st2 where e3: "fs3 = AList.update (?d @ [''WHEEL''])
      (File (wheel_contents a full_tag) st2) fs2"
    by (rule write_text_Inr)
  from 4 obtain st3 where e4: "fs' = AList.update [''lilypond.py'']
      (File module_contents st3) fs3"
    by (rule write_text_Inr)
  have "map_of fs' = (map_of fs)
       (?d \<mapsto> Dir, ?d @ [''METADATA''] \<mapsto> File (metadata_contents env a) st1,
        ?d @ [''WHEEL''] \<mapsto> File (wheel_contents a full_tag) st2,
        [''lilypond.py''] \<mapsto> File module_contents st3)"
    by (simp add: e1 e2 e3 e4 update_conv')
  with n w4 show ?thesis by (rule that)
qed

lemma populate_files_below:
  assumes "populate env a full_tag fs = Inr fs'" "wf_tree fs"
    and "map_of fs' p = Some (File c st)"
  shows "prefix (dist_info_basename a) p \<longleftrightarrow>
     p = dist_info_basename a @ [''METADATA''] \<or> p = dist_info_basename a @ [''WHEEL'']"
proof -
  let ?d = "dist_info_basename a"
  from assms(1,2) obtain st1 st2 st3 where
    n: "map_of fs ?d = None" and
    m: "map_of fs' = (map_of fs)
       (?d \<mapsto> Dir, ?d @ [''METADATA''] \<mapsto> File (metadata_contents env a) st1,
        ?d @ [''WHEEL''] \<mapsto> File (wheel_contents a full_tag) st2,
        [''lilypond.py''] \<mapsto> File module_contents st3)"
    by (rule populate_Inr)
  show ?thesis
  proof
    assume pre: "prefix ?d p"
    show "p = ?d @ [''METADATA''] \<or> p = ?d @ [''WHEEL'']"
    proof (rule ccontr)
      assume neq: "\<not> ?thesis"
      from pre module_not_in_dist_info[of a] have "p \<noteq> [''lilypond.py'']" by auto
      with neq assms(3) have "p \<noteq> ?d \<and> map_of fs p = Some (File c st)"
        unfolding m by (auto split: if_splits)
      with no_entries_below[OF assms(2) n] pre show False by auto
    qed
  next
    assume "p = ?d @ [''METADATA''] \<or> p = ?d @ [''WHEEL'']"
    then show "prefix ?d p" by auto
  qed
qed

lemma populate_module:
  assumes "populate env a full_tag fs = Inr fs'" "wf_tree fs"
  shows "\<exists>st. map_of fs' [''lilypond.py''] = Some (File module_contents st)"
proof -
  from assms obtain st1 st2 st3 where
    m: "map_of fs' = (map_of fs)
       (dist_info_basename a \<mapsto> Dir,
        dist_info_basename a @ [''METADATA''] \<mapsto> File (metadata_contents env a) st1,
        dist_info_basename a @ [''WHEEL''] \<mapsto> File (wheel_contents a full_tag) st2,
        [''lilypond.py''] \<mapsto> File module_contents st3)"
    by (rule populate_Inr)
  show ?thesis unfolding m by simp
qed

lemma populate_wheel:
  assumes "populate env a full_tag fs = Inr fs'" "wf_tree fs"
  shows "\<exists>st. map_of fs' (dist_info_basename a @ [''WHEEL''])
            = Some (File (wheel_contents a full_tag) st)"
proof -
  from assms obtain st1 st2 st3 where
    m: "map_of fs' = (map_of fs)
       (dist_info_basename a \<mapsto> Dir,
        dist_info_basename a @ [''METADATA''] \<mapsto> File (metadata_contents env a) st1,
        dist_info_basename a @ [''WHEEL''] \<mapsto> File (wheel_contents a full_tag) st2,
        [''lilypond.py''] \<mapsto> File module_contents st3)"
    by (rule populate_Inr)
  have "[''lilypond.py''] \<noteq> dist_info_basename a @ [''WHEEL'']" by simp
  then show ?thesis unfolding m by simp
qed

lemma populate_metadata:
  assumes "populate env a full_tag fs = Inr fs'" "wf_tree fs"
  shows "\<exists>st. map_of fs' (dist_info_basename a @ [''METADATA''])
            = Some (File (metadata_contents env a) st)"
proof -
  from assms obtain st1 st2 st3 where
    m: "map_of fs' = (map_of fs)
       (dist_info_basename a \<mapsto> Dir,
        dist_info_basename a @ [''METADATA''] \<mapsto> File (metadata_contents env a) st1,
        dist_info_basename a @ [''WHEEL''] \<mapsto> File (wheel_contents a full_tag) st2,
        [''lilypond.py''] \<mapsto> File module_contents st3)"
    by (rule populate_Inr)
  have "[''lilypond.py''] \<noteq> dist_info_basename a @ [''METADATA'']" by simp
  then show ?thesis unfolding m by simp
qed

subsection \<open>The members and the RECORD of a successful build\<close>

lemma read_after_write:
  assumes "write_text fs p data mode now = Inr fs'" "read_bytes fs' p = Inr (c, st)"
  shows "c = data" "st_mtime st = now"
proof -
  from assms(1) obtain st' where "fs' = AList.update p (File data st') fs" "p \<noteq> []"
    "st_mtime st' = now"
    by (rule write_text_Inr)
  with assms(2) show "c = data" "st_mtime st = now"
    by (simp_all add: read_bytes_def lookup_def update_conv')
qed

lemma filename_member [simp]: "filename (fst (member (p, c, st))) = str_path p"
  by (simp add: member_def from_file_def)

lemma snd_member [simp]: "snd (member (p, c, st)) = c"
  by (simp add: member_def)

lemma record_tuple_member:
  "record_tuple env f =
     (filename (fst (member f)), ''sha256='' @ sha256_hexdigest env (snd (member f)),
      str_nat (length (snd (member f))))"
  by (cases f) (simp add: record_tuple_def member_def from_file_def)

lemma prio_member:
  "list_all plain p \<Longrightarrow>
   prio d (member (p, c, st)) =
     (if prefix d p then 2 else if prefix (Path ''lilypond-binaries/lib/'') p then 1 else 0)"
  by (simp add: prio_def member_def from_file_def is_relative_to_def Path_str_path)

lemma set_order_members [simp]: "set (order_members d ms) = set ms"
  by (simp add: order_members_def)

lemma distinct_map_order_members:
  "distinct (map f (order_members d ms)) = distinct (map f ms)"
  by (simp add: order_members_def distinct_map)

lemma record_name_plain: "list_all plain (dist_info_basename a @ [''RECORD''])"
  by (simp add: plain_def)

lemma build_members:
  assumes "build env a plat plat_tag fs = Inr w" "wf_tree fs"
  obtains fs1 fs2 st where
    "keep_placeholder env plat fs = Inr fs1" "wf_tree fs1"
    "populate env a (''py3-none-'' @ plat_tag) fs1 = Inr fs2" "wf_tree fs2"
    "archive w = order_members (dist_info_basename a)
        (map member (os_walk env fs2) @
         [(from_file st (length (concat (map writerow (map (record_tuple env) (os_walk env fs2)))))
             (dist_info_basename a @ [''RECORD'']),
           concat (map writerow (map (record_tuple env) (os_walk env fs2))))])"
    "st_mtime st = clock env 4"
    "record_name a \<notin> (\<lambda>m. filename (fst m)) ` set (map member (os_walk env fs2))"
    "distinct (map (\<lambda>m. filename (fst m)) (map member (os_walk env fs2)))"
proof -
  let ?d = "dist_info_basename a"
  let ?rec = "?d @ [''RECORD'']"
  from assms(1) obtain fs1 fs2 fs3 contents st where
    k: "keep_placeholder env plat fs = Inr fs1" and
    p: "populate env a (''py3-none-'' @ plat_tag) fs1 = Inr fs2" and
    wr: "write_text fs2 ?rec
       (concat (map writerow (map (record_tuple env) (os_walk env fs2))))
       (create_mode env) (clock env 4) = Inr fs3" and
    rd: "read_bytes fs3 ?rec = Inr (contents, st)" and
    ar: "archive w = order_members ?d
        (map member (os_walk env fs2) @ [(from_file st (length contents) ?rec, contents)])"
    by (rule build_Inr)
  have w1: "wf_tree fs1" using assms(2) k by (rule wf_tree_keep_placeholder)
  have w2: "wf_tree fs2" using p w1 by (rule populate_Inr)
  from read_after_write[OF wr rd]
  have c: "contents = concat (map writerow (map (record_tuple env) (os_walk env fs2)))"
    and t: "st_mtime st = clock env 4" by simp_all
  have notrec: "q \<noteq> ?rec" if "(q, c', st') \<in> set (os_walk env fs2)" for q c' st'
  proof
    assume "q = ?rec"
    with that w2 have "map_of fs2 ?rec = Some (File c' st')" by (simp add: os_walk_iff)
    from populate_files_below[OF p w1 this] show False by simp
  qed
  have inj: "inj_on str_path (fst ` set (os_walk env fs2))"
  proof (rule inj_onI)
    fix x y assume "x \<in> fst ` set (os_walk env fs2)" "y \<in> fst ` set (os_walk env fs2)"
      "str_path x = str_path y"
    with os_walk_plain[OF w2] show "x = y" by (auto intro: str_path_inj)
  qed
  have names: "map (\<lambda>m. filename (fst m)) (map member (os_walk env fs2))
      = map str_path (map fst (os_walk env fs2))"
    by (simp add: comp_def split_beta member_def from_file_def)
  have dist: "distinct (map (\<lambda>m. filename (fst m)) (map member (os_walk env fs2)))"
  proof -
    from w2 have "distinct (map fst (os_walk env fs2))"
      by (simp add: distinct_os_walk wf_tree_iff)
    with inj show ?thesis unfolding names by (subst distinct_map) simp
  qed
  have nr: "record_name a \<notin> (\<lambda>m. filename (fst m)) ` set (map member (os_walk env fs2))"
  proof
    assume "record_name a \<in> (\<lambda>m. filename (fst m)) ` set (map member (os_walk env fs2))"
    then obtain q c' st' where m: "(q, c', st') \<in> set (os_walk env fs2)"
      and e: "record_name a = str_path q"
      by auto
    from os_walk_plain[OF w2 m] record_name_plain[of a] e have "q = ?rec"
      unfolding record_name_def by (auto intro: str_path_inj)
    with notrec[OF m] show False by simp
  qed
  show ?thesis
    using k w1 p w2 ar[unfolded c] t nr dist by (rule that)
qed

lemma build_record:
  assumes "build env a plat plat_tag fs = Inr w" "wf_tree fs"
  obtains ms info where
    "archive w = order_members (dist_info_basename a)
       (ms @ [(info, concat (map writerow (map (\<lambda>m. (filename (fst m),
                 ''sha256='' @ sha256_hexdigest env (snd m), str_nat (length (snd m)))) ms)))])"
    "filename info = record_name a"
    "record_name a \<notin> (\<lambda>m. filename (fst m)) ` set ms"
    "distinct (map (\<lambda>m. filename (fst m)) ms)"
    "member_contents w (record_name a) =
       Some (concat (map writerow (map (\<lambda>m. (filename (fst m),
                 ''sha256='' @ sha256_hexdigest env (snd m), str_nat (length (snd m)))) ms)))"
    "record_rows a w = map (\<lambda>m. [filename (fst m),
                 ''sha256='' @ sha256_hexdigest env (snd m), str_nat (length (snd m))]) ms"
proof -
  let ?d = "dist_info_basename a"
  let ?row = "\<lambda>m. (filename (fst m), ''sha256='' @ sha256_hexdigest env (snd m),
     str_nat (length (snd m)))"
  from assms obtain fs2 st where
    ar: "archive w = order_members ?d
        (map member (os_walk env fs2) @
         [(from_file st (length (concat (map writerow (map (record_tuple env) (os_walk env fs2)))))
             (?d @ [''RECORD'']),
           concat (map writerow (map (record_tuple env) (os_walk env fs2))))])" and
    nr: "record_name a \<notin> (\<lambda>m. filename (fst m)) ` set (map member (os_walk env fs2))" and
    di: "distinct (map (\<lambda>m. filename (fst m)) (map member (os_walk env fs2)))"
    by (rule build_members)
  define ms where "ms = map member (os_walk env fs2)"
  define body where "body = concat (map writerow (map ?row ms))"
  define info where "info = from_file st (length body) (?d @ [''RECORD''])"
  have rt: "map (record_tuple env) (os_walk env fs2) = map ?row ms"
    unfolding ms_def by (simp add: record_tuple_member)
  have 1: "archive w = order_members ?d (ms @ [(info, body)])"
    using ar unfolding rt ms_def[symmetric] body_def[symmetric] info_def[symmetric] .
  have 2: "filename info = record_name a"
    by (simp add: info_def from_file_def record_name_def)
  have 3: "record_name a \<notin> (\<lambda>m. filename (fst m)) ` set ms"
    using nr by (simp add: ms_def)
  have 4: "distinct (map (\<lambda>m. filename (fst m)) ms)"
    using di by (simp add: ms_def)
  have "distinct (map (\<lambda>m. filename (fst m)) (ms @ [(info, body)]))"
    using 2 3 4 by auto
  then have "distinct (map (\<lambda>m. filename (fst m)) (archive w))"
    unfolding 1 by (simp only: distinct_map_order_members)
  then have "distinct (map fst (map (\<lambda>m. (filename (fst m), snd m)) (archive w)))"
    by (simp add: comp_def)
  moreover have "(record_name a, body) \<in> set (map (\<lambda>m. (filename (fst m), snd m)) (archive w))"
    unfolding 1 using 2 by (auto simp: image_iff)
  ultimately have 5: "member_contents w (record_name a) = Some body"
    unfolding member_contents_def by (rule map_of_is_SomeI)
  have 6: "record_rows a w = map (\<lambda>m. [filename (fst m),
                 ''sha256='' @ sha256_hexdigest env (snd m), str_nat (length (snd m))]) ms"
  proof -
    have "csv_read body = map (\<lambda>(a, b, c). [a, b, c]) (map ?row ms)"
      unfolding body_def by (rule csv_read_writerows)
    then show ?thesis by (simp add: record_rows_def 5 comp_def)
  qed
  show ?thesis
    using 1 2 3 4 5 6 unfolding body_def by (rule that)
qed

text \<open>
  Claim C3. Every member stored in the archive, other than RECORD itself, has exactly one
  row in RECORD: it is the only row that carries the member's path, its digest field is
  \<open>sha256=\<close> followed by the digest of the member's stored content, and its size field is
  the length of that content in decimal. (No member but RECORD is left out, so the claim's
  further exclusions are not needed.)
\<close>

theorem manifest_complete:
  assumes "build env a plat plat_tag fs = Inr w" "wf_tree fs"
    and "(info, contents) \<in> set (archive w)" and "filename info \<noteq> record_name a"
  shows "filter (\<lambda>r. r ! 0 = filename info) (record_rows a w) =
           [[filename info, ''sha256='' @ sha256_hexdigest env contents,
             str_nat (length contents)]] \<and>
         decimal_value (str_nat (length contents)) = length contents"
proof -
  let ?d = "dist_info_basename a"
  let ?r = "\<lambda>m. [filename (fst m), ''sha256='' @ sha256_hexdigest env (snd m),
     str_nat (length (snd m))]"
  from assms(1,2) obtain ms rinfo body where
    ar: "archive w = order_members ?d (ms @ [(rinfo, body)])" and
    rn: "filename rinfo = record_name a" and
    di: "distinct (map (\<lambda>m. filename (fst m)) ms)" and
    rows: "record_rows a w = map ?r ms"
    by (rule build_record)
  from assms(3,4) rn have m: "(info, contents) \<in> set ms"
    unfolding ar by auto
  have "filter (\<lambda>m. filename (fst m) = filename info) ms = [(info, contents)]"
    using di m
  proof (induction ms)
    case Nil
    then show ?case by simp
  next
    case (Cons x xs)
    show ?case
    proof (cases "x = (info, contents)")
      case True
      with Cons.prems(1) have "filter (\<lambda>m. filename (fst m) = filename info) xs = []"
        by (auto simp: filter_empty_conv image_iff)
      with True show ?thesis by simp
    next
      case False
      with Cons.prems have "(info, contents) \<in> set xs" "filename (fst x) \<noteq> filename info"
        by (auto simp: image_iff)
      with Cons show ?thesis by simp
    qed
  qed
  then have "filter (\<lambda>r. r ! 0 = filename info) (map ?r ms) = map ?r [(info, contents)]"
    by (simp add: filter_map comp_def)
  then show ?thesis unfolding rows by (simp add: decimal_value_str_nat)
qed

subsection \<open>The example build\<close>

lemma ex_wf: "wf_tree ex_tree"
  by code_simp

lemma ex_archive:
  "archive ex_wheel =
    [(\<lparr>filename = ''lilypond-binaries/bin/lilypond'', date_time = 1000,
       external_attr = 2179792896, file_size = 3\<rparr>, ''ELF''),
     (\<lparr>filename = ''lilypond.py'', date_time = 2003,
       external_attr = 2175008768, file_size = 134\<rparr>, module_contents),
     (\<lparr>filename = ''lilypond-binaries/lib/python3.10/lib-dynload/.keep'', date_time = 2000,
       external_attr = 2175008768, file_size = 0\<rparr>, []),
     (\<lparr>filename = ''lilypond-binaries/lib/python3.10/os.py'', date_time = 1000,
       external_attr = 2175008768, file_size = 6\<rparr>, ''import''),
     (\<lparr>filename = ''lilypond-2.24.3.dist-info/METADATA'', date_time = 2001,
       external_attr = 2175008768, file_size = 253\<rparr>, metadata_contents ex_env ex_args),
     (\<lparr>filename = ''lilypond-2.24.3.dist-info/RECORD'', date_time = 2004,
       external_attr = 2175008768, file_size = 290\<rparr>, ex_record),
     (\<lparr>filename = ''lilypond-2.24.3.dist-info/WHEEL'', date_time = 2002,
       external_attr = 2175008768, file_size = 123\<rparr>,
      wheel_contents ex_args ''py3-none-manylinux2014_x86_64'')]"
  unfolding ex_wheel_def by code_simp

lemma ex_record_name: "record_name ex_args = ''lilypond-2.24.3.dist-info/RECORD''"
  by code_simp

lemma ex_rows:
  "record_rows ex_args ex_wheel =
    [[''lilypond.py'', ''sha256=d134'', ''134''],
     [''lilypond-2.24.3.dist-info/METADATA'', ''sha256=d253'', ''253''],
     [''lilypond-2.24.3.dist-info/WHEEL'', ''sha256=d123'', ''123''],
     [''lilypond-binaries/bin/lilypond'', ''sha256=d3'', ''3''],
     [''lilypond-binaries/lib/python3.10/os.py'', ''sha256=d6'', ''6''],
     [''lilypond-binaries/lib/python3.10/lib-dynload/.keep'', ''sha256=d0'', ''0'']]"
  unfolding record_rows_def member_contents_def ex_archive ex_record_name by code_simp

theorem manifest_complete_witness:
  "build ex_env ex_args ''linux'' ''manylinux2014_x86_64'' ex_tree = Inr ex_wheel \<and>
   wf_tree ex_tree \<and>
   (\<lparr>filename = ''lilypond-binaries/lib/python3.10/os.py'', date_time = 1000,
      external_attr = 2175008768, file_size = 6\<rparr>, ''import'') \<in> set (archive ex_wheel) \<and>
   ''lilypond-binaries/lib/python3.10/os.py'' \<noteq> record_name ex_args \<and>
   filter (\<lambda>r. r ! 0 = ''lilypond-binaries/lib/python3.10/os.py'') (record_rows ex_args ex_wheel)
     = [[''lilypond-binaries/lib/python3.10/os.py'', ''sha256=d6'', ''6'']]"
proof -
  let ?i = "\<lparr>filename = ''lilypond-binaries/lib/python3.10/os.py'', date_time = 1000,
      external_attr = 2175008768, file_size = 6\<rparr>"
  have m: "(?i, ''import'') \<in> set (archive ex_wheel)"
    unfolding ex_archive by simp
  have n: "filename ?i \<noteq> record_name ex_args"
    unfolding ex_record_name by simp
  have d: "sha256_hexdigest ex_env ''import'' = ''d6''" "str_nat (length ''import'') = ''6''"
    by code_simp+
  from manifest_complete[OF ex_build ex_wf m n] d
  have "filter (\<lambda>r. r ! 0 = ''lilypond-binaries/lib/python3.10/os.py'')
          (record_rows ex_args ex_wheel)
        = [[''lilypond-binaries/lib/python3.10/os.py'', ''sha256=d6'', ''6'']]"
    by simp
  with ex_build ex_wf m n show ?thesis by simp
qed

subsection \<open>What RECORD lists\<close>

lemma build_has_module:
  assumes "build env a plat plat_tag fs = Inr w" "wf_tree fs"
  shows "\<exists>info. (info, module_contents) \<in> set (archive w) \<and> filename info = ''lilypond.py''"
proof -
  from assms obtain fs1 fs2 st where
    w1: "wf_tree fs1" and
    p: "populate env a (''py3-none-'' @ plat_tag) fs1 = Inr fs2" and
    w2: "wf_tree fs2" and
    ar: "archive w = order_members (dist_info_basename a)
        (map member (os_walk env fs2) @
         [(from_file st (length (concat (map writerow (map (record_tuple env) (os_walk env fs2)))))
             (dist_info_basename a @ [''RECORD'']),
           concat (map writerow (map (record_tuple env) (os_walk env fs2))))])"
    by (rule build_members)
  from populate_module[OF p w1] obtain st3 where
    "map_of fs2 [''lilypond.py''] = Some (File module_contents st3)" by blast
  with w2 have "([''lilypond.py''], module_contents, st3) \<in> set (os_walk env fs2)"
    by (simp add: os_walk_iff)
  then have "member ([''lilypond.py''], module_contents, st3) \<in> set (archive w)"
    unfolding ar by simp
  then have "(from_file st3 (length module_contents) [''lilypond.py''], module_contents)
      \<in> set (archive w)"
    by (simp add: member_def)
  moreover have "filename (from_file st3 (length module_contents) [''lilypond.py'']) = ''lilypond.py''"
    by (simp add: from_file_def)
  ultimately show ?thesis by blast
qed

lemma module_is_not_record: "''lilypond.py'' \<noteq> record_name a"
proof
  assume "''lilypond.py'' = record_name a"
  then have "str_path [''lilypond.py''] = str_path (dist_info_basename a @ [''RECORD''])"
    by (simp add: record_name_def)
  moreover have "list_all plain [''lilypond.py'']" by (simp add: plain_def)
  ultimately have "[''lilypond.py''] = dist_info_basename a @ [''RECORD'']"
    using record_name_plain[of a] by (blast intro: str_path_inj)
  then show False by simp
qed

text \<open>
  Claim C1, as the code has it. The wrapper module \<open>lilypond.py\<close> is written before the
  walk, so it is hashed like every other file: RECORD has one row for each member of the
  archive except RECORD itself, and one of these rows is the row of \<open>lilypond.py\<close>.
\<close>

theorem record_lists_module:
  assumes "build env a plat plat_tag fs = Inr w" "wf_tree fs"
  shows "set (map (\<lambda>r. r ! 0) (record_rows a w))
           = (\<lambda>m. filename (fst m)) ` set (archive w) - {record_name a} \<and>
         distinct (map (\<lambda>r. r ! 0) (record_rows a w)) \<and>
         [''lilypond.py'', ''sha256='' @ sha256_hexdigest env module_contents,
            str_nat (length module_contents)] \<in> set (record_rows a w)"
proof -
  let ?d = "dist_info_basename a"
  let ?r = "\<lambda>m. [filename (fst m), ''sha256='' @ sha256_hexdigest env (snd m),
     str_nat (length (snd m))]"
  from assms obtain ms rinfo body where
    ar: "archive w = order_members ?d (ms @ [(rinfo, body)])" and
    rn: "filename rinfo = record_name a" and
    nr: "record_name a \<notin> (\<lambda>m. filename (fst m)) ` set ms" and
    di: "distinct (map (\<lambda>m. filename (fst m)) ms)" and
    rows: "record_rows a w = map ?r ms"
    by (rule build_record)
  have paths: "map (\<lambda>r. r ! 0) (record_rows a w) = map (\<lambda>m. filename (fst m)) ms"
    unfolding rows by simp
  have 1: "set (map (\<lambda>r. r ! 0) (record_rows a w))
           = (\<lambda>m. filename (fst m)) ` set (archive w) - {record_name a}"
    unfolding paths ar using rn nr by auto
  have 2: "distinct (map (\<lambda>r. r ! 0) (record_rows a w))"
    unfolding paths by (rule di)
  from build_has_module[OF assms] obtain info where
    "(info, module_contents) \<in> set (archive w)" "filename info = ''lilypond.py''" by blast
  with rn module_is_not_record[of a] have "(info, module_contents) \<in> set ms"
    unfolding ar by auto
  then have "?r (info, module_contents) \<in> ?r ` set ms"
    by (rule imageI)
  then have "?r (info, module_contents) \<in> set (record_rows a w)"
    unfolding rows by (simp only: set_map)
  with \<open>filename info = ''lilypond.py''\<close>
  have 3: "[''lilypond.py'', ''sha256='' @ sha256_hexdigest env module_contents,
            str_nat (length module_contents)] \<in> set (record_rows a w)"
    by simp
  from 1 2 3 show ?thesis by blast
qed

theorem record_lists_module_witness:
  "build ex_env ex_args ''linux'' ''manylinux2014_x86_64'' ex_tree = Inr ex_wheel \<and>
   wf_tree ex_tree \<and>
   set (map (\<lambda>r. r ! 0) (record_rows ex_args ex_wheel))
     = (\<lambda>m. filename (fst m)) ` set (archive ex_wheel) - {record_name ex_args} \<and>
   distinct (map (\<lambda>r. r ! 0) (record_rows ex_args ex_wheel)) \<and>
   [''lilypond.py'', ''sha256='' @ sha256_hexdigest ex_env module_contents,
      str_nat (length module_contents)] \<in> set (record_rows ex_args ex_wheel)"
proof -
  show ?thesis
    using record_lists_module[OF ex_build ex_wf] ex_build ex_wf by simp
qed

text \<open>
  The claim as written fails on the example build: its RECORD has a row whose path field
  is \<open>lilypond.py\<close>.
\<close>

theorem record_lists_module_counterexample:
  "build ex_env ex_args ''linux'' ''manylinux2014_x86_64'' ex_tree = Inr ex_wheel \<and>
   [''lilypond.py'', ''sha256=d134'', ''134''] \<in> set (record_rows ex_args ex_wheel)"
proof -
  show ?thesis
    using ex_build unfolding ex_rows by simp
qed

text \<open>
  Claim C7. Read back as comma-separated text, every row of RECORD has exactly three
  fields: the path of a member, the digest string of its content and the length of its
  content in decimal digits. The file is exactly these rows, each written as its three
  fields with commas between them and ended by one CR LF, so no empty row stands between
  two rows.
\<close>

theorem record_row_format:
  assumes "build env a plat plat_tag fs = Inr w" "wf_tree fs"
  shows "\<exists>body. member_contents w (record_name a) = Some body \<and>
           body = concat (map (\<lambda>r. csv_field (r ! 0) @ '','' @ csv_field (r ! 1) @ '','' @
                                   csv_field (r ! 2) @ [CHR 0x0D, CHR 0x0A]) (csv_read body)) \<and>
           (\<forall>r \<in> set (csv_read body).
              length r = 3 \<and> list_all is_digit (r ! 2) \<and>
              (\<exists>m \<in> set (archive w).
                 r = [filename (fst m), ''sha256='' @ sha256_hexdigest env (snd m),
                      str_nat (length (snd m))]))"
proof -
  let ?d = "dist_info_basename a"
  let ?row = "\<lambda>m. (filename (fst m), ''sha256='' @ sha256_hexdigest env (snd m),
     str_nat (length (snd m)))"
  let ?r = "\<lambda>m. [filename (fst m), ''sha256='' @ sha256_hexdigest env (snd m),
     str_nat (length (snd m))]"
  let ?g = "\<lambda>r. csv_field (r ! 0) @ '','' @ csv_field (r ! 1) @ '','' @
     csv_field (r ! 2) @ [CHR 0x0D, CHR 0x0A]"
  from assms obtain ms info where
    ar: "archive w = order_members ?d (ms @ [(info, concat (map writerow (map ?row ms)))])" and
    mc: "member_contents w (record_name a) = Some (concat (map writerow (map ?row ms)))" and
    rows: "record_rows a w = map ?r ms"
    by (rule build_record)
  define body where "body = concat (map writerow (map ?row ms))"
  have rd: "csv_read body = map ?r ms"
    using rows unfolding record_rows_def mc body_def by simp
  have "map ?g (map ?r ms) = map writerow (map ?row ms)"
    by (simp add: writerow_def)
  then have 2: "body = concat (map ?g (csv_read body))"
    unfolding rd by (simp only: body_def)
  have 3: "length r = 3 \<and> list_all is_digit (r ! 2) \<and> (\<exists>m \<in> set (archive w). r = ?r m)"
    if "r \<in> set (csv_read body)" for r
  proof -
    from that obtain m where m: "m \<in> set ms" and r: "r = ?r m"
      unfolding rd by auto
    from m have "m \<in> set (archive w)" unfolding ar by simp
    with r show ?thesis by (auto simp: digits_str_nat)
  qed
  from mc 2 3 show ?thesis unfolding body_def[symmetric] by blast
qed

theorem record_row_format_witness:
  "build ex_env ex_args ''linux'' ''manylinux2014_x86_64'' ex_tree = Inr ex_wheel \<and>
   wf_tree ex_tree \<and>
   member_contents ex_wheel (record_name ex_args) = Some ex_record \<and>
   ex_record = concat (map (\<lambda>r. csv_field (r ! 0) @ '','' @ csv_field (r ! 1) @ '','' @
                               csv_field (r ! 2) @ [CHR 0x0D, CHR 0x0A]) (csv_read ex_record)) \<and>
   list_all (\<lambda>r. length r = 3 \<and> list_all is_digit (r ! 2)) (csv_read ex_record)"
proof -
  have m: "member_contents ex_wheel (record_name ex_args) = Some ex_record"
    unfolding member_contents_def ex_archive ex_record_name by simp
  from record_row_format[OF ex_build ex_wf] obtain body where
    b: "member_contents ex_wheel (record_name ex_args) = Some body" and
    c: "body = concat (map (\<lambda>r. csv_field (r ! 0) @ '','' @ csv_field (r ! 1) @ '','' @
                               csv_field (r ! 2) @ [CHR 0x0D, CHR 0x0A]) (csv_read body))" and
    d: "\<forall>r \<in> set (csv_read body). length r = 3 \<and> list_all is_digit (r ! 2) \<and>
              (\<exists>m \<in> set (archive ex_wheel).
                 r = [filename (fst m), ''sha256='' @ sha256_hexdigest ex_env (snd m),
                      str_nat (length (snd m))])"
    by blast
  from b m have e: "body = ex_record" by simp
  from d have "list_all (\<lambda>r. length r = 3 \<and> list_all is_digit (r ! 2)) (csv_read ex_record)"
    unfolding e list_all_iff by blast
  with c[unfolded e] m ex_build ex_wf show ?thesis by blast
qed

subsection \<open>The dist-info bucket\<close>

lemma sorted_split:
  fixes f :: "'a \<Rightarrow> nat"
  shows "sorted (map f xs) \<Longrightarrow>
    xs = filter (\<lambda>x. f x < k) xs @ filter (\<lambda>x. \<not> f x < k) xs"
proof (induction xs)
  case Nil
  show ?case by simp
next
  case (Cons x xs)
  then have le: "\<forall>y \<in> set xs. f x \<le> f y" and s: "sorted (map f xs)" by auto
  show ?case
  proof (cases "f x < k")
    case True
    with Cons.IH[OF s] show ?thesis by simp
  next
    case False
    with le have "\<forall>y \<in> set xs. \<not> f y < k" by auto
    then have "filter (\<lambda>x. f x < k) xs = []" "filter (\<lambda>x. \<not> f x < k) xs = xs"
      by (simp_all add: filter_empty_conv)
    with False show ?thesis by simp
  qed
qed

lemma append_same_le: "(xs @ ys \<le> xs @ zs) = (ys \<le> zs)" for ys :: "'a::linorder list"
  by (induction xs) simp_all

lemma prio_le_2: "prio d x \<le> 2"
  by (simp add: prio_def split: prod.splits)

lemma archive_bucket_sorted:
  assumes "build env a plat plat_tag fs = Inr w"
  shows "sorted (map (\<lambda>m. filename (fst m))
            (filter (\<lambda>m. prio (dist_info_basename a) m = k) (archive w)))"
proof -
  from assms obtain ms where a: "archive w = order_members (dist_info_basename a) ms"
    by (elim build_Inr) blast
  have "sorted (map (\<lambda>m. filename (fst m)) (sort_key (\<lambda>m. filename (fst m)) ms))" by simp
  then show ?thesis
    unfolding a order_members_def sort_key_stable by (rule sorted_filter)
qed

lemma dist_info_names_sorted:
  "d \<noteq> [] \<Longrightarrow>
   sorted [str_path (d @ [''METADATA'']), str_path (d @ [''RECORD'']), str_path (d @ [''WHEEL''])] \<and>
   distinct [str_path (d @ [''METADATA'']), str_path (d @ [''RECORD'']), str_path (d @ [''WHEEL''])]"
  by (simp add: str_path_snoc append_same_le)

lemma build_dist_info_members:
  assumes "build env a plat plat_tag fs = Inr w" "wf_tree fs"
  shows "(\<lambda>m. filename (fst m)) ` {m \<in> set (archive w). prio (dist_info_basename a) m = 2}
           = {str_path (dist_info_basename a @ [''METADATA'']),
              str_path (dist_info_basename a @ [''RECORD'']),
              str_path (dist_info_basename a @ [''WHEEL''])}"
    and "distinct (map (\<lambda>m. filename (fst m)) (archive w))"
    and "\<forall>m \<in> set (archive w).
           filename (fst m) = str_path (dist_info_basename a @ [''WHEEL''])
           \<longrightarrow> snd m = wheel_contents a (''py3-none-'' @ plat_tag)"
proof -
  let ?d = "dist_info_basename a"
  let ?fn = "\<lambda>m. filename (fst m)"
  from assms obtain fs1 fs2 st where
    w1: "wf_tree fs1" and
    p: "populate env a (''py3-none-'' @ plat_tag) fs1 = Inr fs2" and
    w2: "wf_tree fs2" and
    ar: "archive w = order_members ?d
        (map member (os_walk env fs2) @
         [(from_file st (length (concat (map writerow (map (record_tuple env) (os_walk env fs2)))))
             (?d @ [''RECORD'']),
           concat (map writerow (map (record_tuple env) (os_walk env fs2))))])" and
    nr: "record_name a \<notin> ?fn ` set (map member (os_walk env fs2))" and
    di: "distinct (map ?fn (map member (os_walk env fs2)))"
    by (rule build_members)
  define recm where "recm =
    (from_file st (length (concat (map writerow (map (record_tuple env) (os_walk env fs2)))))
             (?d @ [''RECORD'']),
           concat (map writerow (map (record_tuple env) (os_walk env fs2))))"
  have set_ar: "set (archive w) = member ` set (os_walk env fs2) \<union> {recm}"
    unfolding ar recm_def by simp
  have fn_rec: "?fn recm = str_path (?d @ [''RECORD''])"
    by (simp add: recm_def from_file_def)
  have prio_rec: "prio ?d recm = 2"
    using record_name_plain[of a]
    by (simp add: prio_def recm_def from_file_def is_relative_to_def Path_str_path)
  have walk: "prio ?d (member (q, c, s)) = 2 \<longleftrightarrow> q = ?d @ [''METADATA''] \<or> q = ?d @ [''WHEEL'']"
    if "(q, c, s) \<in> set (os_walk env fs2)" for q c s
  proof -
    from that w2 have "map_of fs2 q = Some (File c s)" by (simp add: os_walk_iff)
    from populate_files_below[OF p w1 this] os_walk_plain[OF w2 that]
    show ?thesis by (simp add: prio_member)
  qed
  from populate_metadata[OF p w1] obtain stM where
    "map_of fs2 (?d @ [''METADATA'']) = Some (File (metadata_contents env a) stM)" by blast
  with w2 have inM: "(?d @ [''METADATA''], metadata_contents env a, stM) \<in> set (os_walk env fs2)"
    by (simp add: os_walk_iff)
  from populate_wheel[OF p w1] obtain stW where
    mW: "map_of fs2 (?d @ [''WHEEL'']) = Some (File (wheel_contents a (''py3-none-'' @ plat_tag)) stW)"
    by blast
  with w2 have inW: "(?d @ [''WHEEL''], wheel_contents a (''py3-none-'' @ plat_tag), stW)
      \<in> set (os_walk env fs2)"
    by (simp add: os_walk_iff)
  show "?fn ` {m \<in> set (archive w). prio ?d m = 2}
           = {str_path (?d @ [''METADATA'']), str_path (?d @ [''RECORD'']),
              str_path (?d @ [''WHEEL''])}" (is "?L = ?R")
  proof (rule set_eqI, rule iffI)
    fix n assume "n \<in> ?L"
    then obtain m where m: "m \<in> set (archive w)" "prio ?d m = 2" "n = ?fn m" by auto
    from m(1) consider "m = recm" | q c s where "(q, c, s) \<in> set (os_walk env fs2)"
      "m = member (q, c, s)"
      unfolding set_ar by auto
    then show "n \<in> ?R"
    proof cases
      case 1
      with m(3) fn_rec show ?thesis by simp
    next
      case 2
      with walk[OF 2(1)] m(2) have "q = ?d @ [''METADATA''] \<or> q = ?d @ [''WHEEL'']" by simp
      with 2(2) m(3) show ?thesis by auto
    qed
  next
    fix n assume "n \<in> ?R"
    then consider "n = str_path (?d @ [''METADATA''])" | "n = str_path (?d @ [''RECORD''])"
      | "n = str_path (?d @ [''WHEEL''])" by auto
    then show "n \<in> ?L"
    proof cases
      case 1
      have "member (?d @ [''METADATA''], metadata_contents env a, stM) \<in> set (archive w)"
        unfolding set_ar using inM by blast
      moreover have "prio ?d (member (?d @ [''METADATA''], metadata_contents env a, stM)) = 2"
        using walk[OF inM] by simp
      ultimately have "?fn (member (?d @ [''METADATA''], metadata_contents env a, stM)) \<in> ?L"
        by (intro imageI CollectI conjI)
      then show ?thesis using 1 by simp
    next
      case 2
      have "recm \<in> set (archive w)" unfolding set_ar by simp
      with prio_rec have "?fn recm \<in> ?L" by (intro imageI CollectI conjI)
      then show ?thesis using 2 fn_rec by simp
    next
      case 3
      have "member (?d @ [''WHEEL''], wheel_contents a (''py3-none-'' @ plat_tag), stW)
          \<in> set (archive w)"
        unfolding set_ar using inW by blast
      moreover have "prio ?d (member (?d @ [''WHEEL''],
          wheel_contents a (''py3-none-'' @ plat_tag), stW)) = 2"
        using walk[OF inW] by simp
      ultimately have "?fn (member (?d @ [''WHEEL''],
          wheel_contents a (''py3-none-'' @ plat_tag), stW)) \<in> ?L"
        by (intro imageI CollectI conjI)
      then show ?thesis using 3 by simp
    qed
  qed
  define ns where "ns = map ?fn (map member (os_walk env fs2))"
  have "distinct ns" unfolding ns_def by (rule di)
  moreover have "?fn recm \<notin> set ns"
    unfolding ns_def fn_rec using nr unfolding record_name_def by (simp only: set_map simp_thms)
  ultimately have "distinct (ns @ [?fn recm])" by simp
  moreover have "map ?fn (map member (os_walk env fs2) @ [recm]) = ns @ [?fn recm]"
    unfolding ns_def by (simp only: map_append list.map)
  ultimately have "distinct (map ?fn (map member (os_walk env fs2) @ [recm]))" by simp
  then show "distinct (map ?fn (archive w))"
    unfolding ar recm_def[symmetric] by (simp only: distinct_map_order_members)
  show "\<forall>m \<in> set (archive w). ?fn m = str_path (?d @ [''WHEEL''])
           \<longrightarrow> snd m = wheel_contents a (''py3-none-'' @ plat_tag)"
  proof (intro ballI impI)
    fix m assume m: "m \<in> set (archive w)" "?fn m = str_path (?d @ [''WHEEL''])"
    have pl: "list_all plain (?d @ [''WHEEL''])" by (simp add: plain_def)
    from m(1) consider "m = recm" | q c s where "(q, c, s) \<in> set (os_walk env fs2)"
      "m = member (q, c, s)"
      unfolding set_ar by auto
    then show "snd m = wheel_contents a (''py3-none-'' @ plat_tag)"
    proof cases
      case 1
      with m(2) fn_rec have "str_path (?d @ [''RECORD'']) = str_path (?d @ [''WHEEL''])" by simp
      with record_name_plain[of a] pl have "?d @ [''RECORD''] = ?d @ [''WHEEL'']"
        by (rule str_path_inj)
      then show ?thesis by simp
    next
      case 2
      with m(2) have "str_path q = str_path (?d @ [''WHEEL''])" by simp
      with os_walk_plain[OF w2 2(1)] pl have "q = ?d @ [''WHEEL'']"
        by (rule str_path_inj)
      moreover from 2(1) w2 have "map_of fs2 q = Some (File c s)" by (simp add: os_walk_iff)
      ultimately have "c = wheel_contents a (''py3-none-'' @ plat_tag)" using mW by simp
      with 2(2) show ?thesis by simp
    qed
  qed
qed

text \<open>
  Claim C10. The dist-info bucket of every build holds exactly METADATA, RECORD and WHEEL,
  in this order, and it comes last: the last member written to the archive is the WHEEL
  file, and RECORD is the member before it.
\<close>

theorem wheel_is_last:
  assumes "build env a plat plat_tag fs = Inr w" "wf_tree fs"
  shows "\<exists>ms m r wh.
           archive w = ms @ [m, r, wh] \<and>
           (\<forall>x \<in> set ms. prio (dist_info_basename a) x < 2) \<and>
           filename (fst m) = str_path (dist_info_basename a @ [''METADATA'']) \<and>
           filename (fst r) = record_name a \<and>
           filename (fst wh) = str_path (dist_info_basename a @ [''WHEEL'']) \<and>
           snd wh = wheel_contents a (''py3-none-'' @ plat_tag) \<and>
           last (archive w) = wh"
proof -
  let ?d = "dist_info_basename a"
  let ?fn = "\<lambda>m. filename (fst m)"
  let ?lo = "filter (\<lambda>m. prio ?d m < 2) (archive w)"
  let ?hi = "filter (\<lambda>m. prio ?d m = 2) (archive w)"
  have eq2: "(\<not> prio ?d m < 2) = (prio ?d m = 2)" for m
    using prio_le_2[of ?d m] by auto
  from sorted_split[OF archive_sorted_prio[OF assms(1)], of 2]
  have split: "archive w = ?lo @ ?hi" unfolding eq2 .
  have s: "sorted (map ?fn ?hi)" using assms(1) by (rule archive_bucket_sorted)
  from build_dist_info_members(2)[OF assms]
  have d: "distinct (map ?fn ?hi)" by (rule distinct_map_filter)
  have "set (map ?fn ?hi) = ?fn ` {m \<in> set (archive w). prio ?d m = 2}" by auto
  with build_dist_info_members(1)[OF assms]
  have e: "set (map ?fn ?hi) = set [str_path (?d @ [''METADATA'']), str_path (?d @ [''RECORD'']),
      str_path (?d @ [''WHEEL''])]"
    by simp
  from dist_info_names_sorted[of ?d]
  have "map ?fn ?hi = [str_path (?d @ [''METADATA'']), str_path (?d @ [''RECORD'']),
      str_path (?d @ [''WHEEL''])]"
    by (intro sorted_distinct_set_unique[OF s d _ _ e]) simp_all
  then obtain m r wh where hi: "?hi = [m, r, wh]" and
    n: "?fn m = str_path (?d @ [''METADATA''])" "?fn r = str_path (?d @ [''RECORD''])"
       "?fn wh = str_path (?d @ [''WHEEL''])"
    by (auto simp: map_eq_Cons_conv)
  have "wh \<in> set ?hi" unfolding hi by simp
  then have "wh \<in> set (archive w)" by simp
  with build_dist_info_members(3)[OF assms] n(3)
  have c: "snd wh = wheel_contents a (''py3-none-'' @ plat_tag)" by blast
  have a: "archive w = ?lo @ [m, r, wh]" using split unfolding hi .
  then have l: "last (archive w) = wh" by (metis last_appendR last.simps list.distinct(1))
  have lo: "\<forall>x \<in> set ?lo. prio ?d x < 2" by simp
  from a lo n c l show ?thesis unfolding record_name_def by blast
qed

theorem wheel_is_last_witness:
  "build ex_env ex_args ''linux'' ''manylinux2014_x86_64'' ex_tree = Inr ex_wheel \<and>
   wf_tree ex_tree \<and>
   filename (fst (last (archive ex_wheel))) = ''lilypond-2.24.3.dist-info/WHEEL'' \<and>
   snd (last (archive ex_wheel)) = wheel_contents ex_args ''py3-none-manylinux2014_x86_64''"
proof -
  have n: "str_path (dist_info_basename ex_args @ [''WHEEL'']) = ''lilypond-2.24.3.dist-info/WHEEL''"
    by code_simp
  from wheel_is_last[OF ex_build ex_wf]
  have "filename (fst (last (archive ex_wheel)))
          = str_path (dist_info_basename ex_args @ [''WHEEL'']) \<and>
        snd (last (archive ex_wheel)) = wheel_contents ex_args (''py3-none-'' @ ''manylinux2014_x86_64'')"
    by blast
  with n ex_build ex_wf show ?thesis by simp
qed

subsection \<open>The placeholder step\<close>

lemma parent_check_not_assertion: "parent_check fs p \<noteq> Some AssertionError"
  by (simp add: parent_check_def)

lemma touch_not_assertion: "touch fs p mode now \<noteq> Inl AssertionError"
  using parent_check_not_assertion[of fs p]
  by (auto simp: touch_def split: option.splits node.splits)

lemma mkdir_not_assertion: "mkdir fs p \<noteq> Inl AssertionError"
  using parent_check_not_assertion[of fs p]
  by (auto simp: mkdir_def split: option.splits node.splits)

lemma write_text_not_assertion: "write_text fs p data mode now \<noteq> Inl AssertionError"
  using parent_check_not_assertion[of fs p]
  by (auto simp: write_text_def split: option.splits node.splits)

lemma read_bytes_not_assertion: "read_bytes fs p \<noteq> Inl AssertionError"
  by (auto simp: read_bytes_def split: option.splits node.splits)

lemma populate_not_assertion: "populate env a full_tag fs \<noteq> Inl AssertionError"
  using mkdir_not_assertion write_text_not_assertion
  by (auto simp: populate_def Let_def split: sum.splits)

lemma build_assertion:
  "build env a plat plat_tag fs = Inl AssertionError
     \<longleftrightarrow> keep_placeholder env plat fs = Inl AssertionError"
  using populate_not_assertion write_text_not_assertion read_bytes_not_assertion
  by (auto simp: build_def Let_def split: sum.splits prod.splits)

subsection \<open>Two runs on the same tree\<close>

lemma fst_blur [simp]: "fst (blur W e) = fst e"
  by (simp add: blur_def)

lemma clear_time_idem [simp]: "clear_time (clear_time n) = clear_time n"
  by (cases n) (simp_all add: clear_time_def)

lemma clear_time_Dir [simp]: "clear_time n = Dir \<longleftrightarrow> n = Dir"
  by (cases n) (simp_all add: clear_time_def)

lemma map_of_blur:
  "map_of (map (blur W) fs) p
     = map_option (\<lambda>n. if p \<in> W then clear_time n else n) (map_of fs p)"
  by (induction fs) (auto simp: blur_def)

lemma blur_lookup:
  assumes "map (blur W) fs = map (blur W) fs'"
  shows "map_option clear_time (lookup fs p) = map_option clear_time (lookup fs' p)"
proof -
  have "map_option clear_time (map_of fs q) = map_option clear_time (map_of (map (blur W) fs) q)"
    for fs q
    by (cases "q \<in> W") (simp_all add: map_of_blur option.map_comp comp_def option.map_ident)
  from this[of fs p] this[of fs' p] assms show ?thesis by (simp add: lookup_def)
qed

lemma blur_lookup_unchanged:
  assumes "map (blur W) fs = map (blur W) fs'" "p \<notin> W"
  shows "lookup fs p = lookup fs' p"
proof -
  from assms(2) have "map_of fs q = map_of (map (blur W) fs) q" if "q = p" for fs q
    using that by (simp add: map_of_blur option.map_ident)
  from this[of p fs] this[of p fs'] assms(1) show ?thesis by (simp add: lookup_def)
qed

lemma blur_lookup_cases:
  assumes "map_option clear_time x = map_option clear_time y"
  shows "(x = None \<longleftrightarrow> y = None) \<and> (x = Some Dir \<longleftrightarrow> y = Some Dir) \<and> (is_file x \<longleftrightarrow> is_file y)"
  using assms
  by (cases x; cases y) (auto simp: is_file_def clear_time_def split: node.splits)

lemma blur_parent_check:
  assumes "map (blur W) fs = map (blur W) fs'"
  shows "parent_check fs p = parent_check fs' p"
proof -
  have "(lookup fs q = Some Dir \<longleftrightarrow> lookup fs' q = Some Dir) \<and>
        (is_file (lookup fs q) \<longleftrightarrow> is_file (lookup fs' q))" for q
    using blur_lookup_cases[OF blur_lookup[OF assms, of q]] by blast
  then show ?thesis by (simp add: parent_check_def)
qed

lemma blur_update:
  "map (blur W) (AList.update p n fs) = AList.update p (snd (blur W (p, n))) (map (blur W) fs)"
  by (induction fs) (auto simp: blur_def)

lemma blur_write_text:
  assumes "map (blur W) fs = map (blur W) fs'" "p \<in> W"
  shows "map_sum id (map (blur W)) (write_text fs p data mode now)
       = map_sum id (map (blur W)) (write_text fs' p data mode now')"
proof -
  note pc = blur_parent_check[OF assms(1), of p]
  note lk = blur_lookup[OF assms(1), of p]
  show ?thesis
  proof (cases "lookup fs p")
    case None
    with lk have "lookup fs' p = None" by simp
    with None pc assms show ?thesis
      by (simp add: write_text_def blur_update blur_def clear_time_def split: option.splits)
  next
    case (Some n)
    with lk obtain n' where n': "lookup fs' p = Some n'" "clear_time n = clear_time n'"
      by (cases "lookup fs' p") auto
    show ?thesis
    proof (cases n)
      case Dir
      with n' have "n' = Dir" by (metis clear_time_Dir)
      with Dir Some n' pc show ?thesis by (simp add: write_text_def split: option.splits)
    next
      case (File c st)
      with n'(2) obtain c' st' where f': "n' = File c' st'"
        "st\<lparr>st_mtime := 0\<rparr> = st'\<lparr>st_mtime := 0\<rparr>"
        by (cases n') (auto simp: clear_time_def)
      from f'(2) have "st\<lparr>st_mtime := now, st_mtime := 0\<rparr> = st'\<lparr>st_mtime := now', st_mtime := 0\<rparr>"
        by simp
      with File f' Some n' pc assms show ?thesis
        by (simp add: write_text_def blur_update blur_def clear_time_def split: option.splits)
    qed
  qed
qed

lemma blur_touch:
  assumes "map (blur W) fs = map (blur W) fs'" "p \<in> W"
  shows "map_sum id (map (blur W)) (touch fs p mode now)
       = map_sum id (map (blur W)) (touch fs' p mode now')"
proof -
  note pc = blur_parent_check[OF assms(1), of p]
  note lk = blur_lookup[OF assms(1), of p]
  show ?thesis
  proof (cases "lookup fs p")
    case None
    with lk have "lookup fs' p = None" by simp
    with None pc assms show ?thesis
      by (simp add: touch_def blur_update blur_def clear_time_def split: option.splits)
  next
    case (Some n)
    with lk obtain n' where n': "lookup fs' p = Some n'" "clear_time n = clear_time n'"
      by (cases "lookup fs' p") auto
    show ?thesis
    proof (cases n)
      case Dir
      with n' have "n' = Dir" by (metis clear_time_Dir)
      with Dir Some n' pc assms(1) show ?thesis by (simp add: touch_def split: option.splits)
    next
      case (File c st)
      with n'(2) obtain c' st' where f': "n' = File c' st'" "c' = c"
        "st\<lparr>st_mtime := 0\<rparr> = st'\<lparr>st_mtime := 0\<rparr>"
        by (cases n') (auto simp: clear_time_def)
      from f'(3) have "st\<lparr>st_mtime := now, st_mtime := 0\<rparr> = st'\<lparr>st_mtime := now', st_mtime := 0\<rparr>"
        by simp
      with File f' Some n' pc assms show ?thesis
        by (simp add: touch_def blur_update blur_def clear_time_def split: option.splits)
    qed
  qed
qed

lemma blur_mkdir:
  assumes "map (blur W) fs = map (blur W) fs'"
  shows "map_sum id (map (blur W)) (mkdir fs p) = map_sum id (map (blur W)) (mkdir fs' p)"
proof -
  note pc = blur_parent_check[OF assms(1), of p]
  from blur_lookup_cases[OF blur_lookup[OF assms, of p]]
  have "lookup fs p = None \<longleftrightarrow> lookup fs' p = None" by blast
  with pc assms show ?thesis
    by (cases "lookup fs p"; cases "lookup fs' p")
       (simp_all add: mkdir_def blur_update blur_def clear_time_def split: option.splits)
qed

lemma map_sum_eq_cases:
  assumes "map_sum id f x = map_sum id f y"
  obtains e where "x = Inl e" "y = Inl e" | u v where "x = Inr u" "y = Inr v" "f u = f v"
  using assms by (cases x; cases y) auto

lemma blur_keep_placeholder:
  assumes "set (written a plat fs) \<subseteq> W" "create_mode env' = create_mode env"
  shows "map_sum id (map (blur W)) (keep_placeholder env plat fs)
       = map_sum id (map (blur W)) (keep_placeholder env' plat fs)"
proof (cases "(plat = ''linux'' \<or> plat = ''macos'') \<and>
    length (glob_star fs [''lilypond-binaries'', ''lib''] ''python'') = 1")
  case False
  then show ?thesis by (auto simp: keep_placeholder_def Let_def)
next
  case True
  let ?g = "glob_star fs [''lilypond-binaries'', ''lib''] ''python''"
  from True obtain x where g: "?g = [x]"
    by (cases ?g) (auto simp del: One_nat_def)
  with True assms(1) have "x @ [''lib-dynload'', ''.keep''] \<in> W"
    by (auto simp: written_def)
  from blur_touch[OF refl this] True g assms(2) show ?thesis
    by (simp add: keep_placeholder_def)
qed

lemma blur_populate:
  assumes "map (blur W) fs = map (blur W) fs'"
    and "dist_info_basename a @ [''METADATA''] \<in> W" "dist_info_basename a @ [''WHEEL''] \<in> W"
      "[''lilypond.py''] \<in> W"
    and "create_mode env' = create_mode env" "readme env' = readme env"
  shows "map_sum id (map (blur W)) (populate env a full_tag fs)
       = map_sum id (map (blur W)) (populate env' a full_tag fs')"
proof -
  let ?d = "dist_info_basename a"
  have mc: "metadata_contents env' a = metadata_contents env a"
    by (simp add: metadata_contents_def assms(6))
  from blur_mkdir[OF assms(1), of ?d] show ?thesis
  proof (cases rule: map_sum_eq_cases)
    case (1 e)
    then show ?thesis by (simp add: populate_def)
  next
    case (2 u v)
    from blur_write_text[OF 2(3) assms(2), of "metadata_contents env a" "create_mode env"
        "clock env 1" "clock env' 1"]
    show ?thesis
    proof (cases rule: map_sum_eq_cases)
      case (1 e)
      with 2 show ?thesis by (simp add: populate_def mc assms(5))
    next
      case m: (2 u2 v2)
      from blur_write_text[OF m(3) assms(3), of "wheel_contents a full_tag" "create_mode env"
        "clock env 2" "clock env' 2"]
      show ?thesis
      proof (cases rule: map_sum_eq_cases)
        case (1 e)
        with 2 m show ?thesis by (simp add: populate_def mc assms(5))
      next
        case w: (2 u3 v3)
        from blur_write_text[OF w(3) assms(4), of module_contents "create_mode env"
          "clock env 3" "clock env' 3"] 2 m w
        show ?thesis by (simp add: populate_def mc assms(5))
      qed
    qed
  qed
qed

lemma files_blur: "files (map (blur W) fs) = map (blur_file W) (files fs)"
  by (induction fs rule: files.induct) (auto simp: blur_def blur_file_def clear_time_def)

lemma insort_key_map_commute:
  "(\<And>x. k (g x) = k x) \<Longrightarrow> map g (insort_key k x xs) = insort_key k (g x) (map g xs)"
  by (induction xs) simp_all

lemma sort_key_map_commute:
  "(\<And>x. k (g x) = k x) \<Longrightarrow> map g (sort_key k xs) = sort_key k (map g xs)"
  by (induction xs) (simp_all add: insort_key_map_commute)

lemma forget_time_member:
  "str_path ` W \<subseteq> set names \<Longrightarrow>
   forget_time names (member (blur_file W x)) = forget_time names (member x)"
  by (cases x) (auto simp: forget_time_def member_def blur_file_def from_file_def)

lemma members_blur:
  assumes "map (blur_file W) xs = map (blur_file W) ys" "str_path ` W \<subseteq> set names"
  shows "map (forget_time names) (map member xs) = map (forget_time names) (map member ys)"
proof -
  have "map (forget_time names) (map member zs)
      = map (\<lambda>x. forget_time names (member x)) (map (blur_file W) zs)" for zs
    by (simp add: forget_time_member[OF assms(2)] comp_def)
  from this[of xs] this[of ys] assms(1) show ?thesis by simp
qed

lemma filename_forget_time [simp]: "filename (fst (forget_time names m)) = filename (fst m)"
  by (simp add: forget_time_def)

lemma prio_forget_time [simp]: "prio d (forget_time names m) = prio d m"
  by (simp add: prio_def forget_time_def split_beta)

subsection \<open>The three buckets, by path\<close>

lemma lib_path: "Path ''lilypond-binaries/lib/'' = [''lilypond-binaries'', ''lib'']"
  by (simp add: Path_def)

lemma prio_by_path:
  "prio d m =
     (if prefix d (Path (filename (fst m))) then 2
      else if prefix [''lilypond-binaries'', ''lib''] (Path (filename (fst m))) then 1
      else 0)"
  by (simp add: prio_def is_relative_to_def lib_path split_beta)

lemma archive_bucket_index:
  assumes "build env a plat plat_tag fs = Inr w"
    and "i < j" "j < length (archive w)"
    and "prio (dist_info_basename a) (archive w ! i) = prio (dist_info_basename a) (archive w ! j)"
  shows "filename (fst (archive w ! i)) \<le> filename (fst (archive w ! j))"
proof -
  let ?d = "dist_info_basename a"
  let ?k = "prio ?d (archive w ! j)"
  from nth_decomp[OF assms(2,3)] obtain as bs cs
    where d: "archive w = as @ archive w ! i # bs @ archive w ! j # cs" by blast
  have "sorted (map (\<lambda>m. filename (fst m)) (filter (\<lambda>m. prio ?d m = ?k) (archive w)))"
    using assms(1) by (rule archive_bucket_sorted)
  from sorted_filter_pair[OF this d] assms(4) show ?thesis by simp
qed

text \<open>
  Claim C4. In the member sequence of every build that produces an archive, every member
  of the general bucket (a path neither in the dist-info directory nor under
  \<open>lilypond-binaries/lib/\<close>) stands strictly before every member of the library bucket
  (a path under \<open>lilypond-binaries/lib/\<close>; the code tests the dist-info directory first),
  and every member of either stands strictly before every member of the dist-info bucket.
\<close>

theorem bucket_order:
  assumes "build env a plat plat_tag fs = Inr w"
    and "i < length (archive w)" and "j < length (archive w)"
  shows "(\<not> prefix (dist_info_basename a) (Path (filename (fst (archive w ! i)))) \<and>
          \<not> prefix [''lilypond-binaries'', ''lib''] (Path (filename (fst (archive w ! i)))) \<and>
          \<not> prefix (dist_info_basename a) (Path (filename (fst (archive w ! j)))) \<and>
          prefix [''lilypond-binaries'', ''lib''] (Path (filename (fst (archive w ! j))))
            \<longrightarrow> i < j) \<and>
         (\<not> prefix (dist_info_basename a) (Path (filename (fst (archive w ! i)))) \<and>
          prefix [''lilypond-binaries'', ''lib''] (Path (filename (fst (archive w ! i)))) \<and>
          prefix (dist_info_basename a) (Path (filename (fst (archive w ! j))))
            \<longrightarrow> i < j) \<and>
         (\<not> prefix (dist_info_basename a) (Path (filename (fst (archive w ! i)))) \<and>
          \<not> prefix [''lilypond-binaries'', ''lib''] (Path (filename (fst (archive w ! i)))) \<and>
          prefix (dist_info_basename a) (Path (filename (fst (archive w ! j))))
            \<longrightarrow> i < j)"
proof -
  let ?d = "dist_info_basename a"
  have "i < j" if "prio ?d (archive w ! i) < prio ?d (archive w ! j)"
    using assms that by (rule archive_prio_index)
  then show ?thesis by (simp add: prio_by_path)
qed

theorem bucket_order_witness:
  "build ex_env ex_args ''linux'' ''manylinux2014_x86_64'' ex_tree = Inr ex_wheel \<and>
   filename (fst (archive ex_wheel ! 1)) = ''lilypond.py'' \<and>
   filename (fst (archive ex_wheel ! 2)) = ''lilypond-binaries/lib/python3.10/lib-dynload/.keep'' \<and>
   filename (fst (archive ex_wheel ! 4)) = ''lilypond-2.24.3.dist-info/METADATA'' \<and>
   Path ''lilypond.py'' = [''lilypond.py''] \<and>
   Path ''lilypond-binaries/lib/python3.10/lib-dynload/.keep''
     = [''lilypond-binaries'', ''lib'', ''python3.10'', ''lib-dynload'', ''.keep''] \<and>
   Path ''lilypond-2.24.3.dist-info/METADATA'' = [''lilypond-2.24.3.dist-info'', ''METADATA''] \<and>
   dist_info_basename ex_args = [''lilypond-2.24.3.dist-info''] \<and>
   (1::nat) < 2 \<and> (2::nat) < 4 \<and> (1::nat) < 4"
proof -
  have n: "filename (fst (archive ex_wheel ! 1)) = ''lilypond.py''"
    "filename (fst (archive ex_wheel ! 2)) = ''lilypond-binaries/lib/python3.10/lib-dynload/.keep''"
    "filename (fst (archive ex_wheel ! 4)) = ''lilypond-2.24.3.dist-info/METADATA''"
    unfolding ex_archive by simp_all
  have p: "Path ''lilypond.py'' = [''lilypond.py'']"
    "Path ''lilypond-binaries/lib/python3.10/lib-dynload/.keep''
     = [''lilypond-binaries'', ''lib'', ''python3.10'', ''lib-dynload'', ''.keep'']"
    "Path ''lilypond-2.24.3.dist-info/METADATA'' = [''lilypond-2.24.3.dist-info'', ''METADATA'']"
    "dist_info_basename ex_args = [''lilypond-2.24.3.dist-info'']"
    by code_simp+
  have l: "1 < length (archive ex_wheel)" "2 < length (archive ex_wheel)"
    "4 < length (archive ex_wheel)"
    unfolding ex_archive by simp_all
  from bucket_order[OF ex_build l(1) l(2)] have a: "(1::nat) < 2"
    unfolding n p by simp
  from bucket_order[OF ex_build l(2) l(3)] have b: "(2::nat) < 4"
    unfolding n p by simp
  from bucket_order[OF ex_build l(1) l(3)] have c: "(1::nat) < 4"
    unfolding n p by simp
  from ex_build n p a b c show ?thesis by blast
qed

text \<open>
  Claim C6. RECORD is serialised from the members collected before it exists and is
  appended afterwards, so it has no row for itself. Both sorts then move it like any other
  member: it stands after every member outside the dist-info directory, and among the
  members of that directory it stands after those whose name is smaller and before those
  whose name is greater, not at the end where it was appended.
\<close>

theorem record_self_omitted:
  assumes "build env a plat plat_tag fs = Inr w" "wf_tree fs"
  shows "(\<exists>ms info.
           archive w = order_members (dist_info_basename a)
             (ms @ [(info, concat (map writerow (map (\<lambda>m. (filename (fst m),
                ''sha256='' @ sha256_hexdigest env (snd m), str_nat (length (snd m)))) ms)))]) \<and>
           filename info = record_name a \<and>
           record_name a \<notin> (\<lambda>m. filename (fst m)) ` set ms \<and>
           member_contents w (record_name a) =
             Some (concat (map writerow (map (\<lambda>m. (filename (fst m),
                ''sha256='' @ sha256_hexdigest env (snd m), str_nat (length (snd m)))) ms))) \<and>
           (\<forall>r \<in> set (record_rows a w). r ! 0 \<noteq> record_name a)) \<and>
         (\<forall>i j. i < length (archive w) \<and> j < length (archive w) \<and>
                filename (fst (archive w ! j)) = record_name a \<longrightarrow>
            (\<not> prefix (dist_info_basename a) (Path (filename (fst (archive w ! i))))
               \<longrightarrow> i < j) \<and>
            (prefix (dist_info_basename a) (Path (filename (fst (archive w ! i)))) \<and>
             filename (fst (archive w ! i)) < record_name a \<longrightarrow> i < j) \<and>
            (prefix (dist_info_basename a) (Path (filename (fst (archive w ! i)))) \<and>
             record_name a < filename (fst (archive w ! i)) \<longrightarrow> j < i))"
proof -
  let ?d = "dist_info_basename a"
  let ?row = "\<lambda>m. (filename (fst m), ''sha256='' @ sha256_hexdigest env (snd m),
     str_nat (length (snd m)))"
  let ?fn = "\<lambda>k. filename (fst (archive w ! k))"
  from assms obtain ms info where
    ar: "archive w = order_members ?d (ms @ [(info, concat (map writerow (map ?row ms)))])" and
    rn: "filename info = record_name a" and
    nr: "record_name a \<notin> (\<lambda>m. filename (fst m)) ` set ms" and
    mc: "member_contents w (record_name a) = Some (concat (map writerow (map ?row ms)))" and
    rows: "record_rows a w = map (\<lambda>m. [filename (fst m),
                 ''sha256='' @ sha256_hexdigest env (snd m), str_nat (length (snd m))]) ms"
    by (rule build_record)
  have "\<forall>r \<in> set (record_rows a w). r ! 0 \<noteq> record_name a"
  proof
    fix r assume "r \<in> set (record_rows a w)"
    then obtain m where m: "m \<in> set ms" and r: "r ! 0 = filename (fst m)"
      unfolding rows by auto
    from m have "filename (fst m) \<in> (\<lambda>m. filename (fst m)) ` set ms" by (rule imageI)
    with nr r show "r ! 0 \<noteq> record_name a" by metis
  qed
  with ar rn nr mc have 1: "\<exists>ms info.
           archive w = order_members ?d (ms @ [(info, concat (map writerow (map ?row ms)))]) \<and>
           filename info = record_name a \<and>
           record_name a \<notin> (\<lambda>m. filename (fst m)) ` set ms \<and>
           member_contents w (record_name a) = Some (concat (map writerow (map ?row ms))) \<and>
           (\<forall>r \<in> set (record_rows a w). r ! 0 \<noteq> record_name a)"
    by blast
  have pr: "prefix ?d (Path (record_name a))"
    unfolding record_name_def using record_name_plain[of a] by (simp add: Path_str_path)
  have 2: "(\<not> prefix ?d (Path (?fn i)) \<longrightarrow> i < j) \<and>
           (prefix ?d (Path (?fn i)) \<and> ?fn i < record_name a \<longrightarrow> i < j) \<and>
           (prefix ?d (Path (?fn i)) \<and> record_name a < ?fn i \<longrightarrow> j < i)"
    if b: "i < length (archive w)" "j < length (archive w)" and r: "?fn j = record_name a"
    for i j
  proof (intro conjI impI)
    have pj: "prio ?d (archive w ! j) = 2" using pr r by (simp add: prio_by_path)
    {
      assume "\<not> prefix ?d (Path (?fn i))"
      then have "prio ?d (archive w ! i) < prio ?d (archive w ! j)"
        unfolding pj by (simp add: prio_by_path)
      with assms(1) b show "i < j" by (rule archive_prio_index)
    }
    {
      assume h: "prefix ?d (Path (?fn i)) \<and> ?fn i < record_name a"
      then have e: "prio ?d (archive w ! j) = prio ?d (archive w ! i)"
        unfolding pj by (simp add: prio_by_path)
      show "i < j"
      proof (rule ccontr)
        assume "\<not> i < j"
        then consider "j = i" | "j < i" by linarith
        then show False
        proof cases
          case 1
          with h r show False by simp
        next
          case 2
          from archive_bucket_index[OF assms(1) 2 b(1) e] r
          have "record_name a \<le> ?fn i" by simp
          with h show False using leD by blast
        qed
      qed
    }
    {
      assume h: "prefix ?d (Path (?fn i)) \<and> record_name a < ?fn i"
      then have e: "prio ?d (archive w ! i) = prio ?d (archive w ! j)"
        unfolding pj by (simp add: prio_by_path)
      show "j < i"
      proof (rule ccontr)
        assume "\<not> j < i"
        then consider "j = i" | "i < j" by linarith
        then show False
        proof cases
          case 1
          with h r show False by simp
        next
          case 2
          from archive_bucket_index[OF assms(1) 2 b(2) e] r
          have "?fn i \<le> record_name a" by simp
          with h show False using leD by blast
        qed
      qed
    }
  qed
  from 1 2 show ?thesis by blast
qed

theorem record_self_omitted_witness:
  "build ex_env ex_args ''linux'' ''manylinux2014_x86_64'' ex_tree = Inr ex_wheel \<and>
   wf_tree ex_tree \<and>
   member_contents ex_wheel (record_name ex_args) = Some ex_record \<and>
   record_name ex_args \<notin> set (map (\<lambda>r. r ! 0) (record_rows ex_args ex_wheel)) \<and>
   filename (fst (archive ex_wheel ! 5)) = record_name ex_args \<and>
   filename (fst (archive ex_wheel ! 0)) = ''lilypond-binaries/bin/lilypond'' \<and>
   filename (fst (archive ex_wheel ! 6)) = ''lilypond-2.24.3.dist-info/WHEEL'' \<and>
   record_name ex_args < ''lilypond-2.24.3.dist-info/WHEEL'' \<and>
   (0::nat) < 5 \<and> (5::nat) < 6"
proof -
  have mc: "member_contents ex_wheel (record_name ex_args) = Some ex_record"
    unfolding member_contents_def ex_archive ex_record_name by simp
  note t = record_self_omitted[OF ex_build ex_wf]
  from t have "\<forall>r \<in> set (record_rows ex_args ex_wheel). r ! 0 \<noteq> record_name ex_args"
    by blast
  then have nr: "record_name ex_args \<notin> set (map (\<lambda>r. r ! 0) (record_rows ex_args ex_wheel))"
    by auto
  have n: "filename (fst (archive ex_wheel ! 5)) = record_name ex_args"
    "filename (fst (archive ex_wheel ! 0)) = ''lilypond-binaries/bin/lilypond''"
    "filename (fst (archive ex_wheel ! 6)) = ''lilypond-2.24.3.dist-info/WHEEL''"
    unfolding ex_archive ex_record_name by simp_all
  have l: "0 < length (archive ex_wheel)" "5 < length (archive ex_wheel)"
    "6 < length (archive ex_wheel)"
    unfolding ex_archive by simp_all
  have p: "Path ''lilypond-binaries/bin/lilypond'' = [''lilypond-binaries'', ''bin'', ''lilypond'']"
    "Path ''lilypond-2.24.3.dist-info/WHEEL'' = [''lilypond-2.24.3.dist-info'', ''WHEEL'']"
    "dist_info_basename ex_args = [''lilypond-2.24.3.dist-info'']"
    by code_simp+
  have lt: "record_name ex_args < ''lilypond-2.24.3.dist-info/WHEEL''"
    unfolding ex_record_name by simp
  from t have q: "\<And>i j. i < length (archive ex_wheel) \<Longrightarrow> j < length (archive ex_wheel) \<Longrightarrow>
      filename (fst (archive ex_wheel ! j)) = record_name ex_args \<Longrightarrow>
      (\<not> prefix (dist_info_basename ex_args) (Path (filename (fst (archive ex_wheel ! i))))
               \<longrightarrow> i < j) \<and>
      (prefix (dist_info_basename ex_args) (Path (filename (fst (archive ex_wheel ! i)))) \<and>
             record_name ex_args < filename (fst (archive ex_wheel ! i)) \<longrightarrow> j < i)"
    by blast
  from q[OF l(1) l(2) n(1)] have a: "(0::nat) < 5" unfolding n p by simp
  from q[OF l(3) l(2) n(1)] lt have b: "(5::nat) < 6" unfolding n p by simp
  from ex_build ex_wf mc nr n lt a b show ?thesis by blast
qed

subsection \<open>What the glob counts\<close>

lemma take_eq_prefix: "take (length pre) s = pre \<longleftrightarrow> prefix pre s"
  by (metis append_eq_conv_conj prefix_def take_is_prefix)

lemma glob_star_set:
  "set (glob_star fs d pre)
     = (\<lambda>n. d @ [n]) ` {n. prefix pre n \<and> map_of fs (d @ [n]) \<noteq> None}"
proof (rule set_eqI, rule iffI)
  fix p assume "p \<in> set (glob_star fs d pre)"
  then obtain n where e: "(p, n) \<in> set fs" and q: "p \<noteq> []" "butlast p = d"
    "take (length pre) (last p) = pre"
    by (auto simp: glob_star_def)
  from q(1,2) have p: "p = d @ [last p]" by (metis append_butlast_last_id)
  from e have "map_of fs p \<noteq> None" by (metis weak_map_of_SomeI option.distinct(1))
  with p q(3) have "last p \<in> {n. prefix pre n \<and> map_of fs (d @ [n]) \<noteq> None}"
    by (simp add: take_eq_prefix)
  with p show "p \<in> (\<lambda>n. d @ [n]) ` {n. prefix pre n \<and> map_of fs (d @ [n]) \<noteq> None}"
    by (metis (no_types, lifting) imageI)
next
  fix p assume "p \<in> (\<lambda>n. d @ [n]) ` {n. prefix pre n \<and> map_of fs (d @ [n]) \<noteq> None}"
  then obtain n where p: "p = d @ [n]" and n: "prefix pre n" "map_of fs (d @ [n]) \<noteq> None"
    by auto
  from n(2) obtain x where "(d @ [n], x) \<in> set fs" by (auto dest: map_of_SomeD)
  with n(1) show "p \<in> set (glob_star fs d pre)"
    unfolding p by (force simp: glob_star_def take_eq_prefix)
qed

lemma glob_star_length:
  assumes "distinct (map fst fs)"
  shows "length (glob_star fs d pre) = card {n. prefix pre n \<and> map_of fs (d @ [n]) \<noteq> None}"
proof -
  have "distinct (glob_star fs d pre)"
    unfolding glob_star_def using assms by (rule distinct_map_filter)
  then have "length (glob_star fs d pre) = card (set (glob_star fs d pre))"
    by (simp add: distinct_card)
  also have "\<dots> = card {n. prefix pre n \<and> map_of fs (d @ [n]) \<noteq> None}"
    unfolding glob_star_set by (rule card_image) (simp add: inj_on_def)
  finally show ?thesis .
qed

lemma glob_star_single:
  assumes "distinct (map fst fs)"
    and "{n. prefix pre n \<and> map_of fs (d @ [n]) \<noteq> None} = {name}"
  shows "glob_star fs d pre = [d @ [name]]"
proof -
  from glob_star_length[OF assms(1), of d pre] assms(2)
  have "length (glob_star fs d pre) = 1" by simp
  then obtain x where x: "glob_star fs d pre = [x]"
    by (cases "glob_star fs d pre") (auto simp del: One_nat_def)
  from glob_star_set[of fs d pre] assms(2) have "set (glob_star fs d pre) = {d @ [name]}"
    by simp
  with x show ?thesis by simp
qed

text \<open>
  Claim C8, as the code has it. On Linux and macOS the build counts the entries of
  \<open>lilypond-binaries/lib\<close> whose name starts with \<open>python\<close>, directories and files
  alike. When their number is not one, the assertion fails in the first step and the build
  ends with that error: nothing is collected and no archive is produced. When exactly one
  entry is so named and it has a \<open>lib-dynload\<close> directory that holds no \<open>.keep\<close> yet (as
  an empty one does), the step succeeds, the only change to the tree is the new zero-length
  file \<open>lib-dynload/.keep\<close>, and the build cannot end with an assertion error.
\<close>

theorem placeholder_precondition:
  assumes "plat = ''linux'' \<or> plat = ''macos''" "wf_tree fs"
  shows "(card {n. prefix ''python'' n \<and>
                  map_of fs [''lilypond-binaries'', ''lib'', n] \<noteq> None} \<noteq> 1 \<longrightarrow>
            keep_placeholder env plat fs = Inl AssertionError \<and>
            build env a plat plat_tag fs = Inl AssertionError) \<and>
         ({n. prefix ''python'' n \<and>
              map_of fs [''lilypond-binaries'', ''lib'', n] \<noteq> None} = {name} \<and>
          lookup fs [''lilypond-binaries'', ''lib'', name, ''lib-dynload''] = Some Dir \<and>
          lookup fs [''lilypond-binaries'', ''lib'', name, ''lib-dynload'', ''.keep''] = None \<longrightarrow>
            (\<exists>fs'. keep_placeholder env plat fs = Inr fs' \<and>
               lookup fs' [''lilypond-binaries'', ''lib'', name, ''lib-dynload'', ''.keep'']
                 = Some (File [] \<lparr>st_mode = create_mode env, st_mtime = clock env 0\<rparr>) \<and>
               (\<forall>p. p \<noteq> [''lilypond-binaries'', ''lib'', name, ''lib-dynload'', ''.keep'']
                  \<longrightarrow> lookup fs' p = lookup fs p)) \<and>
            build env a plat plat_tag fs \<noteq> Inl AssertionError)"
proof (intro conjI impI)
  let ?lib = "[''lilypond-binaries'', ''lib'']"
  from assms(2) have di: "distinct (map fst fs)" by (simp add: wf_tree_def)
  assume "card {n. prefix ''python'' n \<and> map_of fs [''lilypond-binaries'', ''lib'', n] \<noteq> None} \<noteq> 1"
  with glob_star_length[OF di, of ?lib "''python''"]
  have "length (glob_star fs ?lib ''python'') \<noteq> 1" by simp
  with assms(1) show k: "keep_placeholder env plat fs = Inl AssertionError"
    by (simp add: keep_placeholder_def Let_def)
  then show "build env a plat plat_tag fs = Inl AssertionError"
    by (simp add: build_assertion)
next
  let ?lib = "[''lilypond-binaries'', ''lib'']"
  let ?keep = "[''lilypond-binaries'', ''lib'', name, ''lib-dynload'', ''.keep'']"
  let ?new = "File [] \<lparr>st_mode = create_mode env, st_mtime = clock env 0\<rparr>"
  from assms(2) have di: "distinct (map fst fs)" by (simp add: wf_tree_def)
  assume h: "{n. prefix ''python'' n \<and> map_of fs [''lilypond-binaries'', ''lib'', n] \<noteq> None}
        = {name} \<and>
      lookup fs [''lilypond-binaries'', ''lib'', name, ''lib-dynload''] = Some Dir \<and>
      lookup fs ?keep = None"
  then have "{n. prefix ''python'' n \<and> map_of fs (?lib @ [n]) \<noteq> None} = {name}" by simp
  from glob_star_single[OF di this] have g: "glob_star fs ?lib ''python'' = [?lib @ [name]]" .
  from h have pc: "parent_check fs ?keep = None"
    by (simp add: parent_check_def)
  with h g assms(1) have k: "keep_placeholder env plat fs = Inr (AList.update ?keep ?new fs)"
    by (simp add: keep_placeholder_def touch_def)
  have 1: "lookup (AList.update ?keep ?new fs) ?keep = Some ?new"
    by (simp add: lookup_def update_conv')
  have 2: "\<forall>p. p \<noteq> ?keep \<longrightarrow> lookup (AList.update ?keep ?new fs) p = lookup fs p"
    by (simp add: lookup_def update_conv')
  from k 1 2 show "\<exists>fs'. keep_placeholder env plat fs = Inr fs' \<and>
               lookup fs' ?keep = Some ?new \<and>
               (\<forall>p. p \<noteq> ?keep \<longrightarrow> lookup fs' p = lookup fs p)"
    by blast
  from k show "build env a plat plat_tag fs \<noteq> Inl AssertionError"
    by (simp add: build_assertion)
qed

lemma ex_python_two:
  "{n. prefix ''python'' n \<and> map_of ex_tree_two [''lilypond-binaries'', ''lib'', n] \<noteq> None}
     = {''python3.10'', ''python3.11''}"
  by (auto simp: ex_tree_two_def ex_tree_def split: if_splits)

lemma ex_python_one:
  "{n. prefix ''python'' n \<and> map_of ex_tree [''lilypond-binaries'', ''lib'', n] \<noteq> None}
     = {''python3.10''}"
  by (auto simp: ex_tree_def split: if_splits)

theorem placeholder_precondition_witness:
  "wf_tree ex_tree_two \<and> wf_tree ex_tree \<and>
   card {n. prefix ''python'' n \<and>
            map_of ex_tree_two [''lilypond-binaries'', ''lib'', n] \<noteq> None} = 2 \<and>
   build ex_env ex_args ''linux'' ''manylinux2014_x86_64'' ex_tree_two = Inl AssertionError \<and>
   {n. prefix ''python'' n \<and> map_of ex_tree [''lilypond-binaries'', ''lib'', n] \<noteq> None}
     = {''python3.10''} \<and>
   lookup ex_tree [''lilypond-binaries'', ''lib'', ''python3.10'', ''lib-dynload''] = Some Dir \<and>
   lookup ex_tree [''lilypond-binaries'', ''lib'', ''python3.10'', ''lib-dynload'', ''.keep'']
     = None \<and>
   lookup (projr (keep_placeholder ex_env ''linux'' ex_tree))
       [''lilypond-binaries'', ''lib'', ''python3.10'', ''lib-dynload'', ''.keep'']
     = Some (File [] \<lparr>st_mode = 33188, st_mtime = 2000\<rparr>) \<and>
   build ex_env ex_args ''linux'' ''manylinux2014_x86_64'' ex_tree \<noteq> Inl AssertionError"
proof -
  have w2: "wf_tree ex_tree_two" by code_simp
  have c2: "card {n. prefix ''python'' n \<and>
            map_of ex_tree_two [''lilypond-binaries'', ''lib'', n] \<noteq> None} = 2"
    unfolding ex_python_two by simp
  have l1: "lookup ex_tree [''lilypond-binaries'', ''lib'', ''python3.10'', ''lib-dynload'']
      = Some Dir" by code_simp
  have l2: "lookup ex_tree [''lilypond-binaries'', ''lib'', ''python3.10'', ''lib-dynload'',
      ''.keep''] = None" by code_simp
  have e: "create_mode ex_env = 33188" "clock ex_env 0 = 2000" by (simp_all add: ex_env_def)
  have p: "''linux'' = ''linux'' \<or> ''linux'' = ''macos''" by simp
  from placeholder_precondition[OF p w2, where env = ex_env and a = ex_args
      and plat_tag = "''manylinux2014_x86_64''"] c2
  have a: "build ex_env ex_args ''linux'' ''manylinux2014_x86_64'' ex_tree_two = Inl AssertionError"
    by simp
  from placeholder_precondition[OF p ex_wf, where name = "''python3.10''" and env = ex_env
      and a = ex_args and plat_tag = "''manylinux2014_x86_64''"] ex_python_one l1 l2
  obtain fs' where
    k: "keep_placeholder ex_env ''linux'' ex_tree = Inr fs'" and
    f: "lookup fs' [''lilypond-binaries'', ''lib'', ''python3.10'', ''lib-dynload'', ''.keep'']
          = Some (File [] \<lparr>st_mode = create_mode ex_env, st_mtime = clock ex_env 0\<rparr>)" and
    b: "build ex_env ex_args ''linux'' ''manylinux2014_x86_64'' ex_tree \<noteq> Inl AssertionError"
    by blast
  from k f e have "lookup (projr (keep_placeholder ex_env ''linux'' ex_tree))
       [''lilypond-binaries'', ''lib'', ''python3.10'', ''lib-dynload'', ''.keep'']
     = Some (File [] \<lparr>st_mode = 33188, st_mtime = 2000\<rparr>)"
    by simp
  with w2 ex_wf c2 a ex_python_one l1 l2 b show ?thesis by blast
qed

text \<open>
  The claim as written counts subdirectories. With one \<open>python*\<close> directory and a
  regular file \<open>python.txt\<close> beside it, there is exactly one such subdirectory and the
  assertion fails all the same. With a regular file \<open>python3.so\<close> as the only match,
  there is no such subdirectory, the assertion passes, and the build ends at the
  placeholder with another error.
\<close>

theorem placeholder_precondition_counterexample:
  "wf_tree ex_tree_file \<and>
   python_subdirectories ex_tree_file = [[''lilypond-binaries'', ''lib'', ''python3.10'']] \<and>
   build ex_env ex_args ''linux'' ''manylinux2014_x86_64'' ex_tree_file = Inl AssertionError \<and>
   wf_tree ex_tree_only_file \<and>
   python_subdirectories ex_tree_only_file = [] \<and>
   build ex_env ex_args ''linux'' ''manylinux2014_x86_64'' ex_tree_only_file
     = Inl NotADirectoryError"
proof -
  have "wf_tree ex_tree_file" by code_simp
  moreover have "python_subdirectories ex_tree_file
      = [[''lilypond-binaries'', ''lib'', ''python3.10'']]" by code_simp
  moreover have "build ex_env ex_args ''linux'' ''manylinux2014_x86_64'' ex_tree_file
      = Inl AssertionError" by code_simp
  moreover have "wf_tree ex_tree_only_file" by code_simp
  moreover have "python_subdirectories ex_tree_only_file = []" by code_simp
  moreover have "build ex_env ex_args ''linux'' ''manylinux2014_x86_64'' ex_tree_only_file
     = Inl NotADirectoryError" by code_simp
  ultimately show ?thesis by blast
qed

subsection \<open>Two runs with different clocks and walk orders\<close>

lemma blur_files:
  "map (blur W) fs = map (blur W) fs' \<Longrightarrow>
   map (blur_file W) (files fs) = map (blur_file W) (files fs')"
  by (metis files_blur)

lemma blur_write_read:
  assumes "map (blur W) fs = map (blur W) fs'"
    and "write_text fs p data mode now = Inr fs3" "read_bytes fs3 p = Inr (c, st)"
  obtains fs3' st' where "write_text fs' p data' mode now' = Inr fs3'"
    "read_bytes fs3' p = Inr (data', st')" "st_mode st' = st_mode st"
proof -
  from assms(2) have pc0: "parent_check fs p = None" and nd: "lookup fs p \<noteq> Some Dir"
    by (auto simp: write_text_def split: option.splits node.splits)
  from nd have ne: "p \<noteq> []" by (auto simp: lookup_def)
  from pc0 have pc: "parent_check fs' p = None"
    using blur_parent_check[OF assms(1), of p] by simp
  note lk = blur_lookup[OF assms(1), of p]
  show ?thesis
  proof (cases "lookup fs p")
    case None
    with lk have n': "lookup fs' p = None" by simp
    from None pc0 assms(2)
    have "fs3 = AList.update p (File data \<lparr>st_mode = mode, st_mtime = now\<rparr>) fs"
      by (simp add: write_text_def)
    with assms(3) ne have "st = \<lparr>st_mode = mode, st_mtime = now\<rparr>"
      by (simp add: read_bytes_def lookup_def update_conv')
    then have m: "st_mode st = mode" by simp
    let ?st' = "\<lparr>st_mode = mode, st_mtime = now'\<rparr>"
    from n' pc have "write_text fs' p data' mode now' = Inr (AList.update p (File data' ?st') fs')"
      by (simp add: write_text_def)
    moreover from ne have "read_bytes (AList.update p (File data' ?st') fs') p = Inr (data', ?st')"
      by (simp add: read_bytes_def lookup_def update_conv')
    ultimately show ?thesis using m by (intro that[of _ ?st']) simp_all
  next
    case (Some n)
    with nd obtain c0 s0 where n: "n = File c0 s0"
      by (cases n) auto
    from Some n lk obtain c1 s1 where n': "lookup fs' p = Some (File c1 s1)"
      and e: "s1\<lparr>st_mtime := 0\<rparr> = s0\<lparr>st_mtime := 0\<rparr>"
      by (cases "lookup fs' p") (auto simp: clear_time_def split: node.splits)
    from e have "st_mode (s1\<lparr>st_mtime := 0\<rparr>) = st_mode (s0\<lparr>st_mtime := 0\<rparr>)" by simp
    then have me: "st_mode s1 = st_mode s0" by simp
    from Some n pc0 assms(2) have "fs3 = AList.update p (File data (s0\<lparr>st_mtime := now\<rparr>)) fs"
      by (simp add: write_text_def)
    with assms(3) ne have "st = s0\<lparr>st_mtime := now\<rparr>"
      by (simp add: read_bytes_def lookup_def update_conv')
    then have m: "st_mode st = st_mode s0" by simp
    let ?st' = "s1\<lparr>st_mtime := now'\<rparr>"
    from n' pc have "write_text fs' p data' mode now' = Inr (AList.update p (File data' ?st') fs')"
      by (simp add: write_text_def)
    moreover from ne have "read_bytes (AList.update p (File data' ?st') fs') p = Inr (data', ?st')"
      by (simp add: read_bytes_def lookup_def update_conv')
    ultimately show ?thesis using m me by (intro that[of _ ?st']) simp_all
  qed
qed

lemma sort_key_set_unique:
  assumes "distinct (map k xs)" "distinct (map k ys)" "set xs = set ys"
  shows "sort_key k xs = sort_key k ys"
proof -
  have d: "distinct (map k (sort_key k zs))" if "distinct (map k zs)" for zs
    using that by (simp add: distinct_map)
  have "map k (sort_key k xs) = map k (sort_key k ys)"
    by (rule sorted_distinct_set_unique) (simp_all add: d assms)
  moreover from assms(1) have "inj_on k (set (sort_key k xs) \<union> set (sort_key k ys))"
    by (simp add: distinct_map assms(3)[symmetric])
  ultimately show ?thesis by (simp add: inj_on_map_eq_map)
qed

lemma order_members_set_unique:
  assumes "distinct (map (\<lambda>m. filename (fst m)) xs)" "distinct (map (\<lambda>m. filename (fst m)) ys)"
    "set xs = set ys"
  shows "order_members d xs = order_members d ys"
  unfolding order_members_def using sort_key_set_unique[OF assms] by simp

lemma filename_forget_record [simp]: "filename (fst (forget_record name m)) = filename (fst m)"
  by (simp add: forget_record_def)

lemma prio_forget_record [simp]: "prio d (forget_record name m) = prio d m"
  by (simp add: prio_by_path)

lemma build_members_distinct:
  assumes "build env a plat plat_tag fs = Inr w" "wf_tree fs"
    and "keep_placeholder env plat fs = Inr fs1"
    and "populate env a (''py3-none-'' @ plat_tag) fs1 = Inr fs2"
    and "filename info = record_name a"
  shows "distinct (map (\<lambda>m. filename (fst m))
           (map member (os_walk env fs2) @ [(info, c)]))"
proof -
  from assms(1,2) obtain fs1x fs2x where
    "keep_placeholder env plat fs = Inr fs1x"
    "populate env a (''py3-none-'' @ plat_tag) fs1x = Inr fs2x"
    "record_name a \<notin> (\<lambda>m. filename (fst m)) ` set (map member (os_walk env fs2x))"
    "distinct (map (\<lambda>m. filename (fst m)) (map member (os_walk env fs2x)))"
    by (rule build_members)
  with assms(3,4) have
    nr: "record_name a \<notin> (\<lambda>m. filename (fst m)) ` set (map member (os_walk env fs2))" and
    di: "distinct (map (\<lambda>m. filename (fst m)) (map member (os_walk env fs2)))"
    by simp_all
  define ns where "ns = map (\<lambda>m. filename (fst m)) (map member (os_walk env fs2))"
  have "distinct ns" unfolding ns_def by (rule di)
  moreover have "record_name a \<notin> set ns"
    unfolding ns_def using nr by (simp only: set_map simp_thms)
  ultimately have "distinct (ns @ [filename info])" using assms(5) by simp
  moreover have "map (\<lambda>m. filename (fst m)) (map member (os_walk env fs2) @ [(info, c)])
      = ns @ [filename info]"
    unfolding ns_def by (simp only: map_append list.map fst_conv)
  ultimately show ?thesis by simp
qed

text \<open>
  Claim C2, as the code has it. Two runs over the same tree with the same arguments,
  description, digest function and file mode, at different times and with the walk
  reporting the files in any two orders, write the same file name and the same sequence of
  member names. Every member other than RECORD has the same content, mode bits and size
  in both, and the same timestamp unless the run itself writes the file: the \<open>.keep\<close>
  placeholder, METADATA, WHEEL and \<open>lilypond.py\<close>. RECORD has the same name, place and
  mode bits. The archive is a function of the member sequence once the compression is
  fixed.
\<close>

theorem rebuild_same_but_written_times:
  assumes "build env a plat plat_tag fs = Inr w" "wf_tree fs"
  shows "\<exists>w'. build (env\<lparr>clock := later, scan_rank := other\<rparr>) a plat plat_tag fs = Inr w' \<and>
           wheel_file w' = wheel_file w \<and>
           map (\<lambda>m. forget_record (record_name a)
                  (forget_time (map str_path (written a plat fs)) m)) (archive w')
             = map (\<lambda>m. forget_record (record_name a)
                  (forget_time (map str_path (written a plat fs)) m)) (archive w)"
proof -
  let ?env' = "env\<lparr>clock := later, scan_rank := other\<rparr>"
  let ?d = "dist_info_basename a"
  let ?rec = "?d @ [''RECORD'']"
  let ?tag = "''py3-none-'' @ plat_tag"
  let ?W = "set (written a plat fs)"
  let ?names = "map str_path (written a plat fs)"
  let ?F = "forget_time ?names"
  let ?R = "forget_record (record_name a)"
  let ?G = "\<lambda>m. ?R (?F m)"
  have sub: "str_path ` ?W \<subseteq> set ?names" by simp
  have inW: "?d @ [''METADATA''] \<in> ?W" "?d @ [''WHEEL''] \<in> ?W" "[''lilypond.py''] \<in> ?W"
    by (simp_all add: written_def)
  from assms(1) obtain fs1 fs2 fs3 contents st where
    k: "keep_placeholder env plat fs = Inr fs1" and
    p: "populate env a ?tag fs1 = Inr fs2" and
    wr: "write_text fs2 ?rec (concat (map writerow (map (record_tuple env) (os_walk env fs2))))
       (create_mode env) (clock env 4) = Inr fs3" and
    rd: "read_bytes fs3 ?rec = Inr (contents, st)" and
    wf: "wheel_file w = workdir @ Path (''lilypond-'' @ version a @ ''-'' @
        str_int (build_number a) @ ''-'' @ ?tag @ ''.whl'')" and
    ar: "archive w = order_members ?d
        (map member (os_walk env fs2) @ [(from_file st (length contents) ?rec, contents)])"
    by (rule build_Inr)
  from blur_keep_placeholder[of a plat fs ?W ?env' env] k
  obtain fs1' where k': "keep_placeholder ?env' plat fs = Inr fs1'"
    and b1: "map (blur ?W) fs1 = map (blur ?W) fs1'"
    by (cases "keep_placeholder ?env' plat fs") auto
  from blur_populate[OF b1 inW(1,2,3), of ?env' env ?tag] p
  obtain fs2' where p': "populate ?env' a ?tag fs1' = Inr fs2'"
    and b2: "map (blur ?W) fs2 = map (blur ?W) fs2'"
    by (cases "populate ?env' a ?tag fs1'") auto
  define body' where
    "body' = concat (map writerow (map (record_tuple ?env') (os_walk ?env' fs2')))"
  from blur_write_read[OF b2 wr rd, of body' "clock ?env' 4"] obtain fs3' st' where
    wr': "write_text fs2' ?rec body' (create_mode env) (clock ?env' 4) = Inr fs3'" and
    rd': "read_bytes fs3' ?rec = Inr (body', st')" and
    sm: "st_mode st' = st_mode st"
    by blast
  define w' where "w' = \<lparr>wheel_file = workdir @ Path (''lilypond-'' @ version a @ ''-'' @
        str_int (build_number a) @ ''-'' @ ?tag @ ''.whl''),
      archive = order_members ?d
        (map member (os_walk ?env' fs2') @ [(from_file st' (length body') ?rec, body')])\<rparr>"
  have bw: "build ?env' a plat plat_tag fs = Inr w'"
    unfolding build_def Let_def w'_def
    using k' p' wr' rd' by (simp add: body'_def)
  have 1: "wheel_file w' = wheel_file w" by (simp add: w'_def wf)
  let ?ms = "map member (os_walk env fs2)"
  let ?ms' = "map member (os_walk ?env' fs2')"
  let ?r = "(from_file st (length contents) ?rec, contents)"
  let ?r' = "(from_file st' (length body') ?rec, body')"
  have fr: "filename (from_file st (length contents) ?rec) = record_name a"
    "filename (from_file st' (length body') ?rec) = record_name a"
    by (simp_all add: from_file_def record_name_def)
  have d1: "distinct (map (\<lambda>m. filename (fst m)) (?ms @ [?r]))"
    using assms k p fr(1) by (rule build_members_distinct)
  have d2: "distinct (map (\<lambda>m. filename (fst m)) (?ms' @ [?r']))"
    using bw assms(2) k' p' fr(2) by (rule build_members_distinct)
  have keep: "map (\<lambda>m. filename (fst m)) (map ?G xs) = map (\<lambda>m. filename (fst m)) xs" for xs
    by (simp add: comp_def)
  have gr: "?G ?r' = ?G ?r"
    using sm by (simp add: forget_record_def forget_time_def from_file_def record_name_def)
  have "map (blur_file ?W) (files fs2) = map (blur_file ?W) (files fs2')"
    using b2 by (rule blur_files)
  then have "map ?F (map member (files fs2)) = map ?F (map member (files fs2'))"
    using sub by (rule members_blur)
  then have "map ?R (map ?F (map member (files fs2))) = map ?R (map ?F (map member (files fs2')))"
    by simp
  then have "set (map ?G (map member (files fs2))) = set (map ?G (map member (files fs2')))"
    by (simp add: comp_def)
  moreover have "set (map ?G (map member (os_walk e t))) = set (map ?G (map member (files t)))"
    for e t
    by (simp add: set_os_walk)
  ultimately have sm': "set (map ?G ?ms') = set (map ?G ?ms)" by simp
  have se: "set (map ?G (?ms' @ [?r'])) = set (map ?G (?ms @ [?r]))"
    using sm' gr by simp
  have "order_members ?d (map ?G (?ms' @ [?r'])) = order_members ?d (map ?G (?ms @ [?r]))"
    by (rule order_members_set_unique) (simp_all only: keep d1 d2 se)
  moreover have "map ?G (order_members ?d xs) = order_members ?d (map ?G xs)" for xs
    by (simp add: order_members_def sort_key_map_commute)
  ultimately have 2: "map ?G (archive w') = map ?G (archive w)"
    unfolding ar by (simp only: w'_def wheel.simps)
  from bw 1 2 show ?thesis by blast
qed

lemma ex_build_other:
  "build ex_env_other ex_args ''linux'' ''manylinux2014_x86_64'' ex_tree = Inr ex_wheel_other"
  unfolding ex_wheel_other_def by code_simp

theorem rebuild_same_but_written_times_witness:
  "build ex_env ex_args ''linux'' ''manylinux2014_x86_64'' ex_tree = Inr ex_wheel \<and>
   wf_tree ex_tree \<and>
   build (ex_env\<lparr>clock := (\<lambda>k. 5000 + int k), scan_rank := (\<lambda>p. 10 - length p)\<rparr>) ex_args
      ''linux'' ''manylinux2014_x86_64'' ex_tree = Inr ex_wheel_other \<and>
   wheel_file ex_wheel_other = wheel_file ex_wheel \<and>
   map (\<lambda>m. forget_record (record_name ex_args)
          (forget_time (map str_path (written ex_args ''linux'' ex_tree)) m)) (archive ex_wheel_other)
     = map (\<lambda>m. forget_record (record_name ex_args)
          (forget_time (map str_path (written ex_args ''linux'' ex_tree)) m)) (archive ex_wheel)"
proof -
  have l: "build (ex_env\<lparr>clock := (\<lambda>k. 5000 + int k), scan_rank := (\<lambda>p. 10 - length p)\<rparr>)
      ex_args ''linux'' ''manylinux2014_x86_64'' ex_tree = Inr ex_wheel_other"
    using ex_build_other by (simp add: ex_env_other_def)
  from rebuild_same_but_written_times[OF ex_build ex_wf, where later = "\<lambda>k. 5000 + int k"
      and other = "\<lambda>p. 10 - length p"] l ex_build ex_wf
  show ?thesis by auto
qed

lemma ex_build_later:
  "build ex_env_later ex_args ''linux'' ''manylinux2014_x86_64'' ex_tree = Inr ex_wheel_later"
  unfolding ex_wheel_later_def by code_simp

lemma ex_archive_later:
  "archive ex_wheel_later =
    [(\<lparr>filename = ''lilypond-binaries/bin/lilypond'', date_time = 1000,
       external_attr = 2179792896, file_size = 3\<rparr>, ''ELF''),
     (\<lparr>filename = ''lilypond.py'', date_time = 5003,
       external_attr = 2175008768, file_size = 134\<rparr>, module_contents),
     (\<lparr>filename = ''lilypond-binaries/lib/python3.10/lib-dynload/.keep'', date_time = 5000,
       external_attr = 2175008768, file_size = 0\<rparr>, []),
     (\<lparr>filename = ''lilypond-binaries/lib/python3.10/os.py'', date_time = 1000,
       external_attr = 2175008768, file_size = 6\<rparr>, ''import''),
     (\<lparr>filename = ''lilypond-2.24.3.dist-info/METADATA'', date_time = 5001,
       external_attr = 2175008768, file_size = 253\<rparr>, metadata_contents ex_env ex_args),
     (\<lparr>filename = ''lilypond-2.24.3.dist-info/RECORD'', date_time = 5004,
       external_attr = 2175008768, file_size = 290\<rparr>, ex_record),
     (\<lparr>filename = ''lilypond-2.24.3.dist-info/WHEEL'', date_time = 5002,
       external_attr = 2175008768, file_size = 123\<rparr>,
      wheel_contents ex_args ''py3-none-manylinux2014_x86_64'')]"
  unfolding ex_wheel_later_def by code_simp

lemma ex_build_rescan:
  "build ex_env_rescan ex_args ''linux'' ''manylinux2014_x86_64'' ex_tree = Inr ex_wheel_rescan"
  unfolding ex_wheel_rescan_def by code_simp

lemma ex_archive_rescan:
  "archive ex_wheel_rescan =
    [(\<lparr>filename = ''lilypond-binaries/bin/lilypond'', date_time = 1000,
       external_attr = 2179792896, file_size = 3\<rparr>, ''ELF''),
     (\<lparr>filename = ''lilypond.py'', date_time = 2003,
       external_attr = 2175008768, file_size = 134\<rparr>, module_contents),
     (\<lparr>filename = ''lilypond-binaries/lib/python3.10/lib-dynload/.keep'', date_time = 2000,
       external_attr = 2175008768, file_size = 0\<rparr>, []),
     (\<lparr>filename = ''lilypond-binaries/lib/python3.10/os.py'', date_time = 1000,
       external_attr = 2175008768, file_size = 6\<rparr>, ''import''),
     (\<lparr>filename = ''lilypond-2.24.3.dist-info/METADATA'', date_time = 2001,
       external_attr = 2175008768, file_size = 253\<rparr>, metadata_contents ex_env ex_args),
     (\<lparr>filename = ''lilypond-2.24.3.dist-info/RECORD'', date_time = 2004,
       external_attr = 2175008768, file_size = 290\<rparr>, ex_record_rescan),
     (\<lparr>filename = ''lilypond-2.24.3.dist-info/WHEEL'', date_time = 2002,
       external_attr = 2175008768, file_size = 123\<rparr>,
      wheel_contents ex_args ''py3-none-manylinux2014_x86_64'')]"
  unfolding ex_wheel_rescan_def by code_simp

text \<open>
  The claim as written allows only the timestamp of \<open>lilypond.py\<close> to differ. A later
  run with the same walk order differs from the example run in the timestamp of METADATA
  as well (2001 against 5001), which the run writes anew each time. A run at the same
  times with another walk order has the same member names in the same order, and another
  RECORD: its rows stand in the order of the walk.
\<close>

theorem rebuild_same_but_written_times_counterexample:
  "build ex_env ex_args ''linux'' ''manylinux2014_x86_64'' ex_tree = Inr ex_wheel \<and>
   build ex_env_later ex_args ''linux'' ''manylinux2014_x86_64'' ex_tree = Inr ex_wheel_later \<and>
   ex_env_later = ex_env\<lparr>clock := clock ex_env_later\<rparr> \<and>
   filename (fst (archive ex_wheel ! 4)) = ''lilypond-2.24.3.dist-info/METADATA'' \<and>
   filename (fst (archive ex_wheel_later ! 4)) = ''lilypond-2.24.3.dist-info/METADATA'' \<and>
   date_time (fst (archive ex_wheel ! 4)) = 2001 \<and>
   date_time (fst (archive ex_wheel_later ! 4)) = 5001 \<and>
   map (forget_time [''lilypond.py'']) (archive ex_wheel_later)
     \<noteq> map (forget_time [''lilypond.py'']) (archive ex_wheel) \<and>
   build ex_env_rescan ex_args ''linux'' ''manylinux2014_x86_64'' ex_tree = Inr ex_wheel_rescan \<and>
   ex_env_rescan = ex_env\<lparr>scan_rank := scan_rank ex_env_rescan\<rparr> \<and>
   map filename (map fst (archive ex_wheel_rescan)) = map filename (map fst (archive ex_wheel)) \<and>
   member_contents ex_wheel (record_name ex_args) = Some ex_record \<and>
   member_contents ex_wheel_rescan (record_name ex_args) = Some ex_record_rescan \<and>
   ex_record_rescan \<noteq> ex_record \<and>
   map (forget_time [''lilypond.py'']) (archive ex_wheel_rescan)
     \<noteq> map (forget_time [''lilypond.py'']) (archive ex_wheel)"
proof -
  have e: "ex_env_later = ex_env\<lparr>clock := clock ex_env_later\<rparr>"
    "ex_env_rescan = ex_env\<lparr>scan_rank := scan_rank ex_env_rescan\<rparr>"
    by (simp_all add: ex_env_later_def ex_env_rescan_def)
  have "map (forget_time [''lilypond.py'']) (archive ex_wheel_later) ! 4
     \<noteq> map (forget_time [''lilypond.py'']) (archive ex_wheel) ! 4"
    unfolding ex_archive ex_archive_later by (simp add: forget_time_def)
  then have n: "map (forget_time [''lilypond.py'']) (archive ex_wheel_later)
     \<noteq> map (forget_time [''lilypond.py'']) (archive ex_wheel)"
    by metis
  have f: "filename (fst (archive ex_wheel ! 4)) = ''lilypond-2.24.3.dist-info/METADATA''"
    "filename (fst (archive ex_wheel_later ! 4)) = ''lilypond-2.24.3.dist-info/METADATA''"
    "date_time (fst (archive ex_wheel ! 4)) = 2001"
    "date_time (fst (archive ex_wheel_later ! 4)) = 5001"
    unfolding ex_archive ex_archive_later by simp_all
  have m: "member_contents ex_wheel (record_name ex_args) = Some ex_record"
    "member_contents ex_wheel_rescan (record_name ex_args) = Some ex_record_rescan"
    unfolding member_contents_def ex_archive ex_archive_rescan ex_record_name by simp_all
  have o: "map filename (map fst (archive ex_wheel_rescan)) = map filename (map fst (archive ex_wheel))"
    unfolding ex_archive ex_archive_rescan by simp
  have r: "ex_record_rescan \<noteq> ex_record"
    by (simp add: ex_record_def ex_record_rescan_def)
  have "snd (map (forget_time [''lilypond.py'']) (archive ex_wheel_rescan) ! 5)
     \<noteq> snd (map (forget_time [''lilypond.py'']) (archive ex_wheel) ! 5)"
    unfolding ex_archive ex_archive_rescan using r by (simp add: forget_time_def)
  then have n2: "map (forget_time [''lilypond.py'']) (archive ex_wheel_rescan)
     \<noteq> map (forget_time [''lilypond.py'']) (archive ex_wheel)"
    by metis
  from ex_build ex_build_later ex_build_rescan e n f o m r n2 show ?thesis by blast
qed

end
